theory Spec2Isabelle
  imports Main "HOL-Library.Sublist"
begin

section \<open>Data model (types.ts)\<close>

text \<open>
  The interfaces of the types module become records. The field \<open>id\<close> of \<open>DesignData\<close> and
  the field \<open>text\<close> of \<open>Message\<close> carry a suffix, since both names are taken in Isabelle.
  JavaScript strings become \<open>string\<close>.
\<close>

record Metadata =
  Title :: string
  Description :: string
  Tags :: string
  Type :: string
  Color :: string

record DesignData =
  id_field :: string
  metadata :: Metadata
  imageUrl :: string
  originalImageUrl :: string
  originalIdea :: string
  bgRemoved :: bool
  upscaled :: bool

record Message =
  text_field :: string
  isError :: bool

text \<open>
  \<open>PrintReportItem.status\<close> is one of three marks or any other string: the check mark
  (\<open>Pass\<close>), the warning sign (\<open>Warn\<close>), the cross (\<open>Fail\<close>). An absent and a
  \<open>null\<close> suggestion are both \<open>None\<close>.
\<close>

datatype Status = Pass | Warn | Fail | OtherStatus string

record PrintReportItem =
  status :: Status
  details :: string
  suggestion :: "string option"

record PrintReport =
  resolution :: PrintReportItem
  color_safety :: PrintReportItem
  text_readability :: PrintReportItem
  transparency :: PrintReportItem
  edge_clarity :: PrintReportItem

text \<open>
  The result of analysing one uploaded image. The fields of the two inspiration
  interfaces carry a prefix that keeps them apart from variables of the same names.
\<close>

record InspirationIdea =
  i_title :: string
  i_description :: string
  i_tags :: "string list option"

record InspirationAnalysis =
  a_theme :: string
  a_style :: string
  a_colors :: "string list"
  a_text :: string
  a_ideas :: "InspirationIdea list"

record AnalysisResult =
  printReport :: "PrintReport option"
  inspiration :: "InspirationAnalysis option"
  uploadedImage :: "string option"

section \<open>The outside world\<close>

text \<open>
  A value thrown by an awaited call: an \<open>Error\<close> object with its message, or anything
  else (a rejected \<open>FileReader\<close> promise rejects with an event).
\<close>

datatype thrown = Error string | NotAnError

type_synonym Blob = string

text \<open>
  What the services answer during one handler call. Every awaited call of the API module
  either throws (\<open>Inl\<close>) or returns (\<open>Inr\<close>); \<open>randomUUID\<close> is the identifier that
  \<open>crypto.randomUUID()\<close> returns during the call; \<open>readAsDataURL\<close> is the
  \<open>FileReader\<close> behind \<open>blobToDataUrl\<close>; \<open>confirm\<close> is the user's answer to
  \<open>window.confirm\<close>.
\<close>

record Gateway =
  generateMetadataAndPrompt :: "string \<Rightarrow> thrown + (string \<times> Metadata)"
  generateImageFromPrompt :: "string \<Rightarrow> thrown + string"
  randomUUID :: string
  removeBackground :: "string \<Rightarrow> thrown + Blob"
  upscaleImage :: "string \<Rightarrow> thrown + Blob"
  readAsDataURL :: "Blob \<Rightarrow> thrown + string"
  confirm :: bool

section \<open>Component state (App.tsx)\<close>

text \<open>
  The \<open>useState\<close> cells of \<open>App\<close> that the lifecycle handlers read and write. The
  timer that dismisses a message after five seconds is not modelled: the message stays.
  One handler runs at a time, so the designs a handler reads from its closure are the
  designs of the state it is called in; a state setter becomes a record update.
\<close>

record App =
  ideaPrompt :: string
  generatedDesigns :: "DesignData list"
  isLoading :: bool
  loadingMessage :: string
  message :: "Message option"
  isAnalyzing :: bool
  analysisResult :: AnalysisResult

subsection \<open>Printing numbers in template strings\<close>

definition digit :: "nat \<Rightarrow> char" where
  "digit n = ''0123456789'' ! (n mod 10)"

text \<open>The decimal digits of a number, as \<open>String(n)\<close> writes a non-negative integer.\<close>

function decimal :: "nat \<Rightarrow> string" where
  "decimal n = (if 10 \<le> n then decimal (n div 10) else []) @ [digit n]"
  by pat_completeness auto
termination
  by (relation "measure (\<lambda>n. n)") auto

declare decimal.simps [simp del]

text \<open>An index that may be \<open>-1\<close>, as a template string prints it.\<close>

definition show_number :: "int \<Rightarrow> string" where
  "show_number k = (if 0 \<le> k then decimal (nat k) else CHR ''-'' # decimal (nat (- k)))"

definition quote :: "string \<Rightarrow> string" where
  "quote s = [CHR 0x22] @ s @ [CHR 0x22]"

subsection \<open>Array helpers\<close>

text \<open>\<open>Array.prototype.findIndex\<close>: the first index that satisfies the test, or \<open>-1\<close>.\<close>

fun findIndex :: "('a \<Rightarrow> bool) \<Rightarrow> 'a list \<Rightarrow> int" where
  "findIndex P [] = - 1"
| "findIndex P (x # xs) =
     (if P x then 0 else (let r = findIndex P xs in if r < 0 then - 1 else r + 1))"

subsection \<open>Messages\<close>

definition showMessage :: "string \<Rightarrow> bool \<Rightarrow> App \<Rightarrow> App" where
  "showMessage t e st = st\<lparr>message := Some \<lparr>text_field = t, isError = e\<rparr>\<rparr>"

text \<open>\<open>error instanceof Error ? error.message : fallback\<close>\<close>

fun message_or :: "thrown \<Rightarrow> string \<Rightarrow> string" where
  "message_or (Error m) fallback = m"
| "message_or NotAnError fallback = fallback"

subsection \<open>generateSingleDesign\<close>

text \<open>
  The body of the \<open>try\<close> block: the metadata call, then the image call on the prompt it
  returned, then the record with a new identifier. Either call may throw.
\<close>

definition try_generate :: "Gateway \<Rightarrow> string \<Rightarrow> thrown + DesignData" where
  "try_generate gw idea =
     (case generateMetadataAndPrompt gw idea of
        Inl e \<Rightarrow> Inl e
      | Inr (image_prompt, md) \<Rightarrow>
          (case generateImageFromPrompt gw image_prompt of
             Inl e \<Rightarrow> Inl e
           | Inr url \<Rightarrow>
               Inr \<lparr>id_field = randomUUID gw, metadata = md, imageUrl = url,
                    originalImageUrl = url, originalIdea = idea,
                    bgRemoved = False, upscaled = False\<rparr>))"

text \<open>The \<open>catch\<close> block reports the idea that failed and returns \<open>null\<close>.\<close>

definition generateSingleDesign :: "Gateway \<Rightarrow> string \<Rightarrow> App \<Rightarrow> DesignData option \<times> App" where
  "generateSingleDesign gw idea st =
     (case try_generate gw idea of
        Inr d \<Rightarrow> (Some d, st)
      | Inl e \<Rightarrow>
          (None, showMessage (''Failed to generate design for '' @ quote idea @ ''. See console.'') True st))"

subsection \<open>handleBulkGeneration\<close>

text \<open>
  The idea list: the prompt split at line feeds, each line trimmed, empty lines dropped.
  \<open>trim\<close> removes the white space and line terminators of ECMAScript; of those, the ones
  a \<open>char\<close> can hold are listed.
\<close>

fun split_lines :: "string \<Rightarrow> string list" where
  "split_lines [] = [[]]"
| "split_lines (c # cs) =
     (if c = CHR 0x0A then [] # split_lines cs
      else (case split_lines cs of l # ls \<Rightarrow> (c # l) # ls | [] \<Rightarrow> [[c]]))"

definition is_space :: "char \<Rightarrow> bool" where
  "is_space c = (c \<in> set [CHR 0x09, CHR 0x0A, CHR 0x0B, CHR 0x0C, CHR 0x0D, CHR 0x20, CHR 0xA0])"

definition trim :: "string \<Rightarrow> string" where
  "trim s = rev (dropWhile is_space (rev (dropWhile is_space s)))"

definition parse_ideas :: "string \<Rightarrow> string list" where
  "parse_ideas p = filter (\<lambda>idea. idea \<noteq> []) (map trim (split_lines p))"

text \<open>
  The \<open>for\<close> loop, by recursion on the ideas still to do. \<open>w i\<close> is the outside world
  during iteration \<open>i\<close>, \<open>n\<close> is \<open>ideas.length\<close>, \<open>newDesigns\<close> is the local array.
  Iteration \<open>i + 1\<close> starts when \<open>generateSingleDesign\<close> for idea \<open>i\<close> has returned.
\<close>

fun bulk_loop :: "(nat \<Rightarrow> Gateway) \<Rightarrow> nat \<Rightarrow> nat \<Rightarrow> string list \<Rightarrow> DesignData list \<Rightarrow> App \<Rightarrow> App" where
  "bulk_loop w n i [] newDesigns st = st"
| "bulk_loop w n i (idea # rest) newDesigns st =
     (let st1 = st\<lparr>loadingMessage :=
                  ''Generating design '' @ decimal (i + 1) @ '' of '' @ decimal n
                  @ '': '' @ quote idea\<rparr>
      in case generateSingleDesign (w i) idea st1 of
           (Some design, st2) \<Rightarrow>
             bulk_loop w n (i + 1) rest (newDesigns @ [design])
               (st2\<lparr>generatedDesigns := newDesigns @ [design]\<rparr>)
         | (None, st2) \<Rightarrow> bulk_loop w n (i + 1) rest newDesigns st2)"

text \<open>The handler from the point where \<open>ideas\<close> is known.\<close>

definition bulk_generate :: "(nat \<Rightarrow> Gateway) \<Rightarrow> string list \<Rightarrow> App \<Rightarrow> App" where
  "bulk_generate w ideas st =
     (if length ideas = 0 then showMessage ''Please enter at least one design idea.'' True st
      else
        (let st1 = st\<lparr>isLoading := True, message := None, generatedDesigns := []\<rparr>;
             st2 = bulk_loop w (length ideas) 0 ideas [] st1
         in st2\<lparr>isLoading := False\<rparr>))"

definition handleBulkGeneration :: "(nat \<Rightarrow> Gateway) \<Rightarrow> App \<Rightarrow> App" where
  "handleBulkGeneration w st = bulk_generate w (parse_ideas (ideaPrompt st)) st"

subsection \<open>updateDesign\<close>

text \<open>\<open>Partial<DesignData>\<close>: each key present or not.\<close>

record Partial_DesignData =
  p_id :: "string option"
  p_metadata :: "Metadata option"
  p_imageUrl :: "string option"
  p_originalImageUrl :: "string option"
  p_originalIdea :: "string option"
  p_bgRemoved :: "bool option"
  p_upscaled :: "bool option"

definition no_updates :: Partial_DesignData where
  "no_updates = \<lparr>p_id = None, p_metadata = None, p_imageUrl = None, p_originalImageUrl = None,
                 p_originalIdea = None, p_bgRemoved = None, p_upscaled = None\<rparr>"

text \<open>The object spread \<open>{ ...d, ...updates }\<close>.\<close>

definition spread :: "DesignData \<Rightarrow> Partial_DesignData \<Rightarrow> DesignData" where
  "spread d u =
     \<lparr>id_field = (case p_id u of Some v \<Rightarrow> v | None \<Rightarrow> id_field d),
      metadata = (case p_metadata u of Some v \<Rightarrow> v | None \<Rightarrow> metadata d),
      imageUrl = (case p_imageUrl u of Some v \<Rightarrow> v | None \<Rightarrow> imageUrl d),
      originalImageUrl = (case p_originalImageUrl u of Some v \<Rightarrow> v | None \<Rightarrow> originalImageUrl d),
      originalIdea = (case p_originalIdea u of Some v \<Rightarrow> v | None \<Rightarrow> originalIdea d),
      bgRemoved = (case p_bgRemoved u of Some v \<Rightarrow> v | None \<Rightarrow> bgRemoved d),
      upscaled = (case p_upscaled u of Some v \<Rightarrow> v | None \<Rightarrow> upscaled d)\<rparr>"

definition updateDesign :: "string \<Rightarrow> Partial_DesignData \<Rightarrow> App \<Rightarrow> App" where
  "updateDesign i updates st =
     st\<lparr>generatedDesigns := map (\<lambda>d. if id_field d = i then spread d updates else d) (generatedDesigns st)\<rparr>"

subsection \<open>The transforms\<close>

text \<open>\<open>blobToDataUrl\<close> reads the blob with a \<open>FileReader\<close>.\<close>

definition blobToDataUrl :: "Gateway \<Rightarrow> Blob \<Rightarrow> thrown + string" where
  "blobToDataUrl gw blob = readAsDataURL gw blob"

definition design_number :: "string \<Rightarrow> App \<Rightarrow> string" where
  "design_number i st = show_number (findIndex (\<lambda>d. id_field d = i) (generatedDesigns st) + 1)"

definition handleRemoveBackground :: "Gateway \<Rightarrow> string \<Rightarrow> App \<Rightarrow> App" where
  "handleRemoveBackground gw i st =
     (case find (\<lambda>d. id_field d = i) (generatedDesigns st) of
        None \<Rightarrow> st
      | Some design \<Rightarrow>
          if bgRemoved design then st
          else
            (case removeBackground gw (imageUrl design) of
               Inl e \<Rightarrow> showMessage (message_or e ''BG removal failed.'') True st
             | Inr blob \<Rightarrow>
                 (case blobToDataUrl gw blob of
                    Inl e \<Rightarrow> showMessage (message_or e ''BG removal failed.'') True st
                  | Inr newImageUrl \<Rightarrow>
                      showMessage (''Background removed for design #'' @ design_number i st @ ''!'') False
                        (updateDesign i (no_updates\<lparr>p_imageUrl := Some newImageUrl, p_bgRemoved := Some True\<rparr>) st))))"

definition handleUpscale :: "Gateway \<Rightarrow> string \<Rightarrow> App \<Rightarrow> App" where
  "handleUpscale gw i st =
     (case find (\<lambda>d. id_field d = i) (generatedDesigns st) of
        None \<Rightarrow> st
      | Some design \<Rightarrow>
          if upscaled design then st
          else
            (case upscaleImage gw (imageUrl design) of
               Inl e \<Rightarrow> showMessage (message_or e ''Upscaling failed.'') True st
             | Inr blob \<Rightarrow>
                 (case blobToDataUrl gw blob of
                    Inl e \<Rightarrow> showMessage (message_or e ''Upscaling failed.'') True st
                  | Inr newImageUrl \<Rightarrow>
                      showMessage (''Design #'' @ design_number i st @ '' upscaled!'') False
                        (updateDesign i (no_updates\<lparr>p_imageUrl := Some newImageUrl, p_upscaled := Some True\<rparr>) st))))"

subsection \<open>handleRemix, handleRevert, handleGenerateFromIdea, handleClearSession\<close>

definition handleRemix :: "Gateway \<Rightarrow> string \<Rightarrow> App \<Rightarrow> App" where
  "handleRemix gw i st =
     (case find (\<lambda>d. id_field d = i) (generatedDesigns st) of
        None \<Rightarrow> st
      | Some design \<Rightarrow>
          (let st1 = showMessage (''Remixing design: '' @ quote (originalIdea design) @ ''...'') False st
           in case generateSingleDesign gw (originalIdea design) st1 of
                (Some newDesign, st2) \<Rightarrow>
                  showMessage ''Remix successful! New design added.'' False
                    (st2\<lparr>generatedDesigns := generatedDesigns st2 @ [newDesign]\<rparr>)
              | (None, st2) \<Rightarrow> st2))"

definition handleRevert :: "string \<Rightarrow> App \<Rightarrow> App" where
  "handleRevert i st =
     (case find (\<lambda>d. id_field d = i) (generatedDesigns st) of
        None \<Rightarrow> st
      | Some design \<Rightarrow>
          if imageUrl design = originalImageUrl design then st
          else
            showMessage (''Design #'' @ design_number i st @ '' reverted.'') False
              (updateDesign i
                 (no_updates\<lparr>p_imageUrl := Some (originalImageUrl design),
                             p_bgRemoved := Some False, p_upscaled := Some False\<rparr>) st))"

definition handleGenerateFromIdea :: "Gateway \<Rightarrow> string \<Rightarrow> App \<Rightarrow> App" where
  "handleGenerateFromIdea gw description st =
     (let st1 = st\<lparr>isLoading := True, loadingMessage := ''Generating: '' @ quote description\<rparr>
      in case generateSingleDesign gw description st1 of
           (Some newDesign, st2) \<Rightarrow>
             (showMessage ''New design generated from suggestion!'' False
                (st2\<lparr>generatedDesigns := generatedDesigns st2 @ [newDesign]\<rparr>))\<lparr>isLoading := False\<rparr>
         | (None, st2) \<Rightarrow> st2\<lparr>isLoading := False\<rparr>)"

definition handleClearSession :: "Gateway \<Rightarrow> App \<Rightarrow> App" where
  "handleClearSession gw st =
     (if confirm gw then showMessage ''Session cleared successfully.'' False (st\<lparr>generatedDesigns := []\<rparr>)
      else st)"

section \<open>handleImageUpload (App.tsx)\<close>

text \<open>
  \<open>printResponse\<close> is the parsed answer of the print analysis. Its keys are whatever the
  service sent, so its \<open>resolution\<close> key may be absent. \<open>naturalWidth\<close> and
  \<open>naturalHeight\<close> are unsigned integers.
\<close>

record PrintResponse =
  r_resolution :: "PrintReportItem option"
  r_color_safety :: PrintReportItem
  r_text_readability :: PrintReportItem
  r_transparency :: PrintReportItem
  r_edge_clarity :: PrintReportItem

text \<open>
  \<open>Math.round(Math.max(w, h) / 15)\<close>: rounding to the nearest integer, a half going up.
  A quotient by 15 is never a half, so on integers this is \<open>(2 * m + 15) div 30\<close>.
\<close>

definition dpi :: "nat \<Rightarrow> nat \<Rightarrow> nat" where
  "dpi naturalWidth naturalHeight = (2 * max naturalWidth naturalHeight + 15) div 30"

text \<open>The object literal under the key \<open>resolution\<close>.\<close>

definition resolution_check :: "nat \<Rightarrow> nat \<Rightarrow> PrintReportItem" where
  "resolution_check naturalWidth naturalHeight =
     \<lparr>status = (if naturalWidth \<ge> 4500 \<and> naturalHeight \<ge> 5400 then Pass else Warn),
      details = ''Your image is '' @ decimal naturalWidth @ ''x'' @ decimal naturalHeight
                @ ''px (~'' @ decimal (dpi naturalWidth naturalHeight)
                @ '' DPI). Recommended: 4500x5400px (300 DPI).'',
      suggestion = (if naturalWidth < 4500 \<or> naturalHeight < 5400
                    then Some ''Use an upscaler for a high-quality print.'' else None)\<rparr>"

text \<open>
  \<open>{ resolution: ..., ...printResponse }\<close>: the keys of \<open>printResponse\<close> are spread after
  the local \<open>resolution\<close>, so a \<open>resolution\<close> key in the response would replace it.
\<close>

definition finalReport :: "nat \<Rightarrow> nat \<Rightarrow> PrintResponse \<Rightarrow> PrintReport" where
  "finalReport naturalWidth naturalHeight printResponse =
     \<lparr>resolution = (case r_resolution printResponse of
                       Some r \<Rightarrow> r
                     | None \<Rightarrow> resolution_check naturalWidth naturalHeight),
      color_safety = r_color_safety printResponse,
      text_readability = r_text_readability printResponse,
      transparency = r_transparency printResponse,
      edge_clarity = r_edge_clarity printResponse\<rparr>"

text \<open>
  What the browser and the services do during one upload: the \<open>FileReader\<close> behind
  \<open>blobToBase64\<close>, the type of the file, the object URL made for it, the natural width
  and height of the image when its \<open>onload\<close> fires (\<open>None\<close> when it never fires),
  the two analyses, and which of them rejects first when both reject.
\<close>

record Upload =
  readAsBase64 :: "thrown + string"
  file_type :: string
  objectURL :: string
  loaded :: "(nat \<times> nat) option"
  analyzeImageForInspiration :: "string \<Rightarrow> string \<Rightarrow> thrown + InspirationAnalysis"
  analyzeImageForPrint :: "string \<Rightarrow> string \<Rightarrow> nat \<Rightarrow> nat \<Rightarrow> thrown + PrintResponse"
  inspiration_rejects_first :: bool

text \<open>
  \<open>Promise.all\<close> of two promises that settle: both values, or the rejection that came
  first.
\<close>

fun promise_all :: "thrown + 'a \<Rightarrow> thrown + 'b \<Rightarrow> bool \<Rightarrow> thrown + ('a \<times> 'b)" where
  "promise_all (Inr x) (Inr y) first = Inr (x, y)"
| "promise_all (Inl e) (Inr y) first = Inl e"
| "promise_all (Inr x) (Inl e) first = Inl e"
| "promise_all (Inl e1) (Inl e2) first = Inl (if first then e1 else e2)"

text \<open>
  The handler. It resets the analysis result, reads the file, waits for the image to
  load, awaits both analyses, and only then builds the report and stores it. A
  rejection on the way is caught and shown, and no report is stored. The result is
  \<open>None\<close> when the image never loads: the promise awaited for \<open>onload\<close> has no
  rejection, so the handler does not continue.
\<close>

definition handleImageUpload :: "Upload \<Rightarrow> App \<Rightarrow> App option" where
  "handleImageUpload up st =
     (let st1 = st\<lparr>isAnalyzing := True,
                    analysisResult := \<lparr>printReport = None, inspiration = None, uploadedImage = None\<rparr>,
                    message := None\<rparr>
      in case readAsBase64 up of
           Inl e \<Rightarrow> Some ((showMessage (message_or e ''Analysis failed.'') True st1)\<lparr>isAnalyzing := False\<rparr>)
         | Inr base64String \<Rightarrow>
             (case loaded up of
                None \<Rightarrow> None
              | Some (naturalWidth, naturalHeight) \<Rightarrow>
                  (case promise_all
                          (analyzeImageForInspiration up base64String (file_type up))
                          (analyzeImageForPrint up base64String (file_type up) naturalWidth naturalHeight)
                          (inspiration_rejects_first up) of
                     Inl e \<Rightarrow>
                       Some ((showMessage (message_or e ''Analysis failed.'') True st1)\<lparr>isAnalyzing := False\<rparr>)
                   | Inr (inspirationResponse, printResponse) \<Rightarrow>
                       Some (st1\<lparr>analysisResult :=
                                    \<lparr>printReport = Some (finalReport naturalWidth naturalHeight printResponse),
                                     inspiration = Some inspirationResponse,
                                     uploadedImage = Some (objectURL up)\<rparr>,
                                  isAnalyzing := False\<rparr>))))"

section \<open>Metadata export (the API service module)\<close>

text \<open>
  \<open>downloadMetadataAsXLSX\<close> maps the designs to an array of objects and hands it to the
  spreadsheet library. An object is the list of its keys with their values, in the order
  of the literal. The model returns what the library is given: the file name, the sheet
  name, and the array.
\<close>

type_synonym row = "(string \<times> string) list"

record Workbook =
  file_name :: string
  sheet_name :: string
  worksheetData :: "row list"

definition downloadMetadataAsXLSX :: "DesignData list \<Rightarrow> Workbook" where
  "downloadMetadataAsXLSX designs =
     \<lparr>file_name = ''metadata.xlsx'',
      sheet_name = ''Designs'',
      worksheetData =
        map (\<lambda>d. [(''Title'', Title (metadata d)),
                  (''Description'', Description (metadata d)),
                  (''Tags'', Tags (metadata d)),
                  (''Type'', Type (metadata d)),
                  (''Color'', Color (metadata d)),
                  (''OriginalIdea'', originalIdea d)]) designs\<rparr>"

text \<open>
  The module that calls the generative service directly, which \<open>App\<close> does not import,
  has a function of the same name for another upload tool. Its rows start with a file
  path made from the title: every character other than an ASCII letter or digit becomes
  an underscore, letters are lowered, and an empty result is replaced by the position.
\<close>

definition is_alnum :: "char \<Rightarrow> bool" where
  "is_alnum c = (let k = (of_char c :: nat) in
     (48 \<le> k \<and> k \<le> 57) \<or> (65 \<le> k \<and> k \<le> 90) \<or> (97 \<le> k \<and> k \<le> 122))"

definition lower_char :: "char \<Rightarrow> char" where
  "lower_char c = (let k = (of_char c :: nat) in if 65 \<le> k \<and> k \<le> 90 then char_of (k + 32) else c)"

definition file_title :: "string \<Rightarrow> nat \<Rightarrow> string" where
  "file_title t index =
     (let s = map lower_char (map (\<lambda>c. if is_alnum c then c else CHR ''_'') t)
      in if s = [] then ''design_'' @ decimal index else s)"

definition downloadMetadataAsXLSX_direct :: "Metadata list \<Rightarrow> Workbook" where
  "downloadMetadataAsXLSX_direct designs =
     \<lparr>file_name = ''FlyingUploadData.xlsx'',
      sheet_name = ''FlyingUploadData'',
      worksheetData =
        map (\<lambda>(md, index).
               [(''Image Path'', ''C:'' @ [CHR 0x5C] @ ''Downloads'' @ [CHR 0x5C] @ file_title (Title md) index @ ''.png''),
                (''Language'', ''EN''),
                (''Title'', Title md),
                (''Description'', Description md),
                (''Tags'', Tags md),
                (''Type'', Type md),
                (''Color'', Color md)]) (zip designs [0..<length designs])\<rparr>"

section \<open>Sequences of lifecycle operations\<close>

text \<open>
  The buttons of a design card and the idea list of the upload panel call the handlers
  with an identifier or an idea. A command names one such call; \<open>run\<close> performs it in
  the world that holds during the call.
\<close>

datatype Command =
    GenerateFromIdea string
  | RemoveBackground string
  | Upscale string
  | Remix string
  | Revert string

fun run :: "Gateway \<Rightarrow> Command \<Rightarrow> App \<Rightarrow> App" where
  "run gw (GenerateFromIdea description) st = handleGenerateFromIdea gw description st"
| "run gw (RemoveBackground i) st = handleRemoveBackground gw i st"
| "run gw (Upscale i) st = handleUpscale gw i st"
| "run gw (Remix i) st = handleRemix gw i st"
| "run gw (Revert i) st = handleRevert i st"

fun run_all :: "(Gateway \<times> Command) list \<Rightarrow> App \<Rightarrow> App" where
  "run_all [] st = st"
| "run_all ((gw, c) # cs) st = run_all cs (run gw c st)"

text \<open>The two transforms of one design, and a sequence of them.\<close>

datatype Transform = BgRemoval | Upscaling

fun apply_transform :: "Gateway \<Rightarrow> Transform \<Rightarrow> string \<Rightarrow> App \<Rightarrow> App" where
  "apply_transform gw BgRemoval i st = handleRemoveBackground gw i st"
| "apply_transform gw Upscaling i st = handleUpscale gw i st"

fun apply_transforms :: "(Gateway \<times> Transform) list \<Rightarrow> string \<Rightarrow> App \<Rightarrow> App" where
  "apply_transforms [] i st = st"
| "apply_transforms ((gw, t) # ts) i st = apply_transforms ts i (apply_transform gw t i st)"

text \<open>
  The image that a transform stores when both awaited calls of its \<open>try\<close> block return:
  the service call on the current image, then the data URL of the blob.
\<close>

definition transform_result :: "Gateway \<Rightarrow> Transform \<Rightarrow> string \<Rightarrow> thrown + string" where
  "transform_result gw t url =
     (case (case t of BgRemoval \<Rightarrow> removeBackground gw url | Upscaling \<Rightarrow> upscaleImage gw url) of
        Inl e \<Rightarrow> Inl e
      | Inr blob \<Rightarrow> blobToDataUrl gw blob)"

text \<open>The fields of a design that are set when it is created and that no handler names again.\<close>

definition creation_fields :: "DesignData \<Rightarrow> string \<times> Metadata \<times> string \<times> string" where
  "creation_fields d = (id_field d, metadata d, originalImageUrl d, originalIdea d)"

text \<open>The designs that a bulk run generates, in the order of their ideas.\<close>

definition generated :: "(nat \<Rightarrow> Gateway) \<Rightarrow> string list \<Rightarrow> DesignData list" where
  "generated w ideas =
     concat (map (\<lambda>j. case try_generate (w j) (ideas ! j) of Inr d \<Rightarrow> [d] | Inl e \<Rightarrow> [])
                 [0..<length ideas])"

section \<open>Concrete worlds and states\<close>

definition md1 :: Metadata where
  "md1 = \<lparr>Title = ''Synthwave Cat'', Description = ''A cat at sunset'', Tags = ''cat, retro'',
          Type = ''T-Shirt'', Color = ''Black''\<rparr>"

definition d1 :: DesignData where
  "d1 = \<lparr>id_field = ''d1'', metadata = md1, imageUrl = ''img1'', originalImageUrl = ''img1'',
         originalIdea = ''cat'', bgRemoved = False, upscaled = False\<rparr>"

definition st1 :: App where
  "st1 = \<lparr>ideaPrompt = ''cat'', generatedDesigns = [d1], isLoading = False,
          loadingMessage = [], message = None, isAnalyzing = False,
          analysisResult = \<lparr>printReport = None, inspiration = None, uploadedImage = None\<rparr>\<rparr>"

text \<open>A world in which every service answers.\<close>

definition gw_up :: Gateway where
  "gw_up = \<lparr>generateMetadataAndPrompt = (\<lambda>idea. Inr (''draw '' @ idea, md1)),
            generateImageFromPrompt = (\<lambda>p. Inr ''img2''),
            randomUUID = ''d2'',
            removeBackground = (\<lambda>url. Inr ''cut''),
            upscaleImage = (\<lambda>url. Inr ''big''),
            readAsDataURL = (\<lambda>blob. Inr (''data:'' @ blob)),
            confirm = True\<rparr>"

text \<open>A world in which every service call throws.\<close>

definition gw_down :: Gateway where
  "gw_down = \<lparr>generateMetadataAndPrompt = (\<lambda>idea. Inl (Error ''503'')),
              generateImageFromPrompt = (\<lambda>p. Inl (Error ''503'')),
              randomUUID = ''d3'',
              removeBackground = (\<lambda>url. Inl (Error ''503'')),
              upscaleImage = (\<lambda>url. Inl (Error ''503'')),
              readAsDataURL = (\<lambda>blob. Inl NotAnError),
              confirm = False\<rparr>"

text \<open>A world in which the background service returns the image it was sent.\<close>

definition gw_echo :: Gateway where
  "gw_echo = \<lparr>generateMetadataAndPrompt = (\<lambda>idea. Inr (''draw '' @ idea, md1)),
              generateImageFromPrompt = (\<lambda>p. Inr ''img2''),
              randomUUID = ''d4'',
              removeBackground = (\<lambda>url. Inr url),
              upscaleImage = (\<lambda>url. Inr url),
              readAsDataURL = (\<lambda>blob. Inr blob),
              confirm = True\<rparr>"

text \<open>A world in which the metadata call answers and the image call throws.\<close>

definition gw_noimage :: Gateway where
  "gw_noimage = \<lparr>generateMetadataAndPrompt = (\<lambda>idea. Inr (''draw '' @ idea, md1)),
                 generateImageFromPrompt = (\<lambda>p. Inl (Error ''no image'')),
                 randomUUID = ''d5'',
                 removeBackground = (\<lambda>url. Inr ''cut''),
                 upscaleImage = (\<lambda>url. Inr ''big''),
                 readAsDataURL = (\<lambda>blob. Inr (''data:'' @ blob)),
                 confirm = True\<rparr>"

text \<open>
  A bulk run in which every service is down during the second iteration and answers
  during the others, with a different identifier each time.
\<close>

definition world_second_down :: "nat \<Rightarrow> Gateway" where
  "world_second_down j = (if j = 1 then gw_down else gw_up\<lparr>randomUUID := ''u'' @ decimal j\<rparr>)"

definition made :: "string \<Rightarrow> string \<Rightarrow> DesignData" where
  "made i idea = \<lparr>id_field = i, metadata = md1, imageUrl = ''img2'', originalImageUrl = ''img2'',
                  originalIdea = idea, bgRemoved = False, upscaled = False\<rparr>"

text \<open>Bulk runs in which the services are down, or up, during every iteration.\<close>

definition all_down :: "nat \<Rightarrow> Gateway" where
  "all_down j = gw_down"

definition all_up :: "nat \<Rightarrow> Gateway" where
  "all_up j = gw_up"

text \<open>A second design, with the background removed, and a store that holds both.\<close>

definition d6 :: DesignData where
  "d6 = \<lparr>id_field = ''d6'', metadata = md1, imageUrl = ''cut6'', originalImageUrl = ''img6'',
         originalIdea = ''dog'', bgRemoved = True, upscaled = False\<rparr>"

definition st2 :: App where
  "st2 = st1\<lparr>generatedDesigns := [d1, d6]\<rparr>"

text \<open>A world in which \<open>crypto.randomUUID()\<close> returns an identifier that is in use.\<close>

definition gw_clash :: Gateway where
  "gw_clash = gw_up\<lparr>randomUUID := ''d1''\<rparr>"

text \<open>
  Uploads of an image of 5000 by 5500 pixels: one in which both analyses answer, one in
  which the print analysis throws, and one in which the print response has a
  \<open>resolution\<close> key.
\<close>

definition item_ok :: PrintReportItem where
  "item_ok = \<lparr>status = Pass, details = ''fine'', suggestion = None\<rparr>"

definition item_fail :: PrintReportItem where
  "item_fail = \<lparr>status = Fail, details = ''too small'', suggestion = None\<rparr>"

definition response_ok :: PrintResponse where
  "response_ok = \<lparr>r_resolution = None, r_color_safety = item_ok, r_text_readability = item_ok,
                  r_transparency = item_ok, r_edge_clarity = item_ok\<rparr>"

definition analysis_ok :: InspirationAnalysis where
  "analysis_ok = \<lparr>a_theme = ''cats'', a_style = ''retro'', a_colors = [''#000000''],
                  a_text = [], a_ideas = []\<rparr>"

definition upload_ok :: Upload where
  "upload_ok = \<lparr>readAsBase64 = Inr ''aGk='', file_type = ''image/png'', objectURL = ''blob:1'',
                loaded = Some (5000, 5500),
                analyzeImageForInspiration = (\<lambda>b m. Inr analysis_ok),
                analyzeImageForPrint = (\<lambda>b m w h. Inr response_ok),
                inspiration_rejects_first = False\<rparr>"

definition upload_print_down :: Upload where
  "upload_print_down = upload_ok\<lparr>analyzeImageForPrint := (\<lambda>b m w h. Inl (Error ''503''))\<rparr>"

definition upload_with_key :: Upload where
  "upload_with_key =
     upload_ok\<lparr>analyzeImageForPrint := (\<lambda>b m w h. Inr (response_ok\<lparr>r_resolution := Some item_fail\<rparr>))\<rparr>"

text \<open>An upload of an image of 3000 by 4000 pixels in which both analyses answer.\<close>

definition upload_small :: Upload where
  "upload_small = upload_ok\<lparr>loaded := Some (3000, 4000)\<rparr>"

section \<open>Facts about the handlers\<close>

subsection \<open>Lookups and updates by identifier\<close>

lemma generatedDesigns_showMessage [simp]:
  "generatedDesigns (showMessage t e st) = generatedDesigns st"
  by (simp add: showMessage_def)

lemma generatedDesigns_updateDesign:
  "generatedDesigns (updateDesign i u st) =
     map (\<lambda>d. if id_field d = i then spread d u else d) (generatedDesigns st)"
  by (simp add: updateDesign_def)

lemma find_None_unknown:
  "i \<notin> id_field ` set ds \<Longrightarrow> find (\<lambda>d. id_field d = i) ds = None"
  by (induction ds) auto

lemma find_distinct:
  "distinct (map id_field ds) \<Longrightarrow> d \<in> set ds \<Longrightarrow> find (\<lambda>x. id_field x = id_field d) ds = Some d"
  by (induction ds) (auto simp: image_iff)

lemma same_id_same_design:
  "distinct (map id_field ds) \<Longrightarrow> x \<in> set ds \<Longrightarrow> d \<in> set ds \<Longrightarrow>
   (id_field x = id_field d) = (x = d)"
  by (auto simp: distinct_map inj_on_def)

lemma map_update_distinct:
  assumes "distinct (map id_field ds)" and "d \<in> set ds"
  shows "map (\<lambda>x. if id_field x = id_field d then f x else x) ds
         = map (\<lambda>x. if x = d then f d else x) ds"
proof (rule map_cong [OF refl])
  fix x assume "x \<in> set ds"
  then have "(id_field x = id_field d) = (x = d)"
    using assms by (simp add: same_id_same_design)
  then show "(if id_field x = id_field d then f x else x) = (if x = d then f d else x)"
    by auto
qed

lemma find_Some_id:
  "find (\<lambda>d. id_field d = i) ds = Some design \<Longrightarrow> id_field design = i"
  by (induction ds) (auto split: if_splits)

lemma find_map_update:
  "find (\<lambda>d. id_field d = i) ds = Some design \<Longrightarrow> id_field (f design) = i \<Longrightarrow>
   find (\<lambda>d. id_field d = i) (map (\<lambda>d. if id_field d = i then f d else d) ds) = Some (f design)"
  by (induction ds) (auto split: if_splits)

lemma find_replaced:
  assumes "distinct (map id_field ds)" and "d \<in> set ds" and "id_field c = id_field d"
  shows "find (\<lambda>x. id_field x = id_field d) (map (\<lambda>x. if x = d then c else x) ds) = Some c"
proof -
  have eq: "map (\<lambda>x. if x = d then c else x) ds
        = map (\<lambda>x. if id_field x = id_field d then c else x) ds"
    by (rule map_update_distinct [OF assms(1,2), where f = "\<lambda>y. c", symmetric])
  have "find (\<lambda>x. id_field x = id_field d)
        (map (\<lambda>x. if id_field x = id_field d then c else x) ds) = Some c"
    by (rule find_map_update [OF find_distinct [OF assms(1,2)], where f = "\<lambda>y. c"]) (rule assms(3))
  then show ?thesis unfolding eq .
qed

lemma update_replaced:
  assumes "distinct (map id_field ds)" and "d \<in> set ds" and "id_field c = id_field d"
  shows "map (\<lambda>x. if id_field x = id_field d then f x else x) (map (\<lambda>x. if x = d then c else x) ds)
         = map (\<lambda>x. if x = d then f c else x) ds"
proof -
  have "(if id_field (if x = d then c else x) = id_field d then f (if x = d then c else x)
         else (if x = d then c else x)) = (if x = d then f c else x)" if "x \<in> set ds" for x
    using same_id_same_design [OF assms(1) that assms(2)] assms(3) by auto
  then show ?thesis by (simp add: comp_def cong: map_cong)
qed

lemma id_field_spread [simp]: "p_id u = None \<Longrightarrow> id_field (spread d u) = id_field d"
  by (simp add: spread_def)

lemma spread_bg [simp]:
  "spread d (no_updates\<lparr>p_imageUrl := Some u, p_bgRemoved := Some b\<rparr>) = d\<lparr>imageUrl := u, bgRemoved := b\<rparr>"
  by (simp add: spread_def no_updates_def)

lemma spread_up [simp]:
  "spread d (no_updates\<lparr>p_imageUrl := Some u, p_upscaled := Some b\<rparr>) = d\<lparr>imageUrl := u, upscaled := b\<rparr>"
  by (simp add: spread_def no_updates_def)

lemma spread_revert [simp]:
  "spread d (no_updates\<lparr>p_imageUrl := Some u, p_bgRemoved := Some b, p_upscaled := Some c\<rparr>)
   = d\<lparr>imageUrl := u, bgRemoved := b, upscaled := c\<rparr>"
  by (simp add: spread_def no_updates_def)

lemma store_handleRemoveBackground:
  "generatedDesigns (handleRemoveBackground gw i st) =
     (case find (\<lambda>d. id_field d = i) (generatedDesigns st) of
        None \<Rightarrow> generatedDesigns st
      | Some design \<Rightarrow>
          if bgRemoved design then generatedDesigns st
          else (case transform_result gw BgRemoval (imageUrl design) of
                  Inl e \<Rightarrow> generatedDesigns st
                | Inr u \<Rightarrow> map (\<lambda>d. if id_field d = i then d\<lparr>imageUrl := u, bgRemoved := True\<rparr> else d)
                             (generatedDesigns st)))"
  by (simp add: handleRemoveBackground_def transform_result_def generatedDesigns_updateDesign
        split: option.splits sum.splits)

lemma store_handleUpscale:
  "generatedDesigns (handleUpscale gw i st) =
     (case find (\<lambda>d. id_field d = i) (generatedDesigns st) of
        None \<Rightarrow> generatedDesigns st
      | Some design \<Rightarrow>
          if upscaled design then generatedDesigns st
          else (case transform_result gw Upscaling (imageUrl design) of
                  Inl e \<Rightarrow> generatedDesigns st
                | Inr u \<Rightarrow> map (\<lambda>d. if id_field d = i then d\<lparr>imageUrl := u, upscaled := True\<rparr> else d)
                             (generatedDesigns st)))"
  by (simp add: handleUpscale_def transform_result_def generatedDesigns_updateDesign
        split: option.splits sum.splits)

lemma store_handleRevert:
  "generatedDesigns (handleRevert i st) =
     (case find (\<lambda>d. id_field d = i) (generatedDesigns st) of
        None \<Rightarrow> generatedDesigns st
      | Some design \<Rightarrow>
          if imageUrl design = originalImageUrl design then generatedDesigns st
          else map (\<lambda>d. if id_field d = i
                         then d\<lparr>imageUrl := originalImageUrl design, bgRemoved := False, upscaled := False\<rparr>
                         else d) (generatedDesigns st))"
  by (simp add: handleRevert_def generatedDesigns_updateDesign split: option.splits)

lemma store_handleRemix:
  "generatedDesigns (handleRemix gw i st) =
     (case find (\<lambda>d. id_field d = i) (generatedDesigns st) of
        None \<Rightarrow> generatedDesigns st
      | Some design \<Rightarrow>
          (case try_generate gw (originalIdea design) of
             Inl e \<Rightarrow> generatedDesigns st
           | Inr newDesign \<Rightarrow> generatedDesigns st @ [newDesign]))"
  by (simp add: handleRemix_def generateSingleDesign_def split: option.splits sum.splits)

lemma store_handleGenerateFromIdea:
  "generatedDesigns (handleGenerateFromIdea gw description st) =
     (case try_generate gw description of
        Inl e \<Rightarrow> generatedDesigns st
      | Inr newDesign \<Rightarrow> generatedDesigns st @ [newDesign])"
  by (simp add: handleGenerateFromIdea_def generateSingleDesign_def split: sum.splits)

lemma map_creation_fields_update:
  "(\<And>d. creation_fields (f d) = creation_fields d) \<Longrightarrow>
   map (creation_fields \<circ> (\<lambda>d. if id_field d = i then f d else d)) ds = map creation_fields ds"
  by (induction ds) auto

lemma run_keeps_creation_fields:
  "prefix (map creation_fields (generatedDesigns st)) (map creation_fields (generatedDesigns (run gw c st)))"
proof (cases c)
  case (GenerateFromIdea x)
  then show ?thesis by (simp add: store_handleGenerateFromIdea split: sum.splits)
next
  case (RemoveBackground x)
  then show ?thesis
    by (simp add: store_handleRemoveBackground map_creation_fields_update creation_fields_def
          split: option.splits sum.splits)
next
  case (Upscale x)
  then show ?thesis
    by (simp add: store_handleUpscale map_creation_fields_update creation_fields_def
          split: option.splits sum.splits)
next
  case (Remix x)
  then show ?thesis by (simp add: store_handleRemix split: option.splits sum.splits)
next
  case (Revert x)
  then show ?thesis
    by (simp add: store_handleRevert map_creation_fields_update creation_fields_def
          split: option.splits)
qed

lemma run_all_keeps_creation_fields:
  "prefix (map creation_fields (generatedDesigns st)) (map creation_fields (generatedDesigns (run_all steps st)))"
proof (induction steps arbitrary: st)
  case Nil
  then show ?case by simp
next
  case (Cons step steps)
  obtain gw c where step: "step = (gw, c)" by (cases step)
  have "prefix (map creation_fields (generatedDesigns st))
               (map creation_fields (generatedDesigns (run gw c st)))"
    by (rule run_keeps_creation_fields)
  also have "prefix \<dots> (map creation_fields (generatedDesigns (run_all steps (run gw c st))))"
    by (rule Cons.IH)
  finally show ?case by (simp add: step)
qed

lemma prefix_nth: "prefix xs ys \<Longrightarrow> k < length xs \<Longrightarrow> k < length ys \<and> ys ! k = xs ! k"
  by (auto simp: prefix_def nth_append)


subsection \<open>The bulk loop\<close>

lemma bulk_loop_store:
  "generatedDesigns st = newDesigns \<Longrightarrow>
   generatedDesigns (bulk_loop w n i rest newDesigns st) =
     newDesigns @ concat (map (\<lambda>j. case try_generate (w (i + j)) (rest ! j) of Inr d \<Rightarrow> [d] | Inl e \<Rightarrow> [])
                              [0..<length rest])"
proof (induction rest arbitrary: i newDesigns st)
  case Nil
  then show ?case by simp
next
  case (Cons idea rest)
  let ?g = "\<lambda>j. case try_generate (w (i + j)) ((idea # rest) ! j) of Inr d \<Rightarrow> [d] | Inl e \<Rightarrow> []"
  have split: "concat (map ?g [0..<Suc (length rest)]) =
        ?g 0 @ concat (map (\<lambda>j. case try_generate (w (Suc i + j)) (rest ! j) of Inr d \<Rightarrow> [d] | Inl e \<Rightarrow> [])
                          [0..<length rest])"
    by (simp add: upt_conv_Cons map_Suc_upt [symmetric] comp_def del: upt_Suc)
  show ?case
  proof (cases "try_generate (w i) idea")
    case (Inl e)
    then show ?thesis
      using Cons.IH [of _ newDesigns "Suc i"] Cons.prems
      by (simp add: split generateSingleDesign_def del: upt_Suc)
  next
    case (Inr d)
    then show ?thesis
      using Cons.IH [of _ "newDesigns @ [d]" "Suc i"] Cons.prems
      by (simp add: split generateSingleDesign_def del: upt_Suc)
  qed
qed

lemma store_bulk_generate:
  "generatedDesigns (bulk_generate w ideas st) = (if ideas = [] then generatedDesigns st else generated w ideas)"
  using bulk_loop_store [of "st\<lparr>isLoading := True, message := None, generatedDesigns := []\<rparr>" "[]" w "length ideas" 0 ideas]
  by (simp add: bulk_generate_def generated_def Let_def)

lemma concat_map_singletons:
  "(\<And>x. x \<in> set xs \<Longrightarrow> g x = [h x]) \<Longrightarrow> concat (map g xs) = map h xs"
  by (induction xs) auto

lemma showMessage_twice [simp]: "showMessage t e (showMessage t' e' st) = showMessage t e st"
  by (simp add: showMessage_def)

subsection \<open>A design followed through a sequence of transforms\<close>

lemma transform_tracks:
  assumes dist: "distinct (map id_field ds)" and mem: "d \<in> set ds"
    and store: "generatedDesigns s = map (\<lambda>x. if x = d then c else x) ds"
    and same: "creation_fields c = creation_fields d"
  shows "\<exists>c'. generatedDesigns (apply_transform gw t (id_field d) s) = map (\<lambda>x. if x = d then c' else x) ds
           \<and> creation_fields c' = creation_fields d"
proof -
  have idc: "id_field c = id_field d"
    using same by (simp add: creation_fields_def)
  have f: "find (\<lambda>x. id_field x = id_field d) (generatedDesigns s) = Some c"
    unfolding store by (rule find_replaced [OF dist mem idc])
  note upd = update_replaced [OF dist mem idc]
  have keep: ?thesis if "generatedDesigns (apply_transform gw t (id_field d) s) = generatedDesigns s"
    using that store same by auto
  have change: ?thesis
    if "generatedDesigns (apply_transform gw t (id_field d) s)
          = map (\<lambda>x. if id_field x = id_field d then g x else x) (generatedDesigns s)"
      and "creation_fields (g c) = creation_fields d" for g
  proof -
    have "generatedDesigns (apply_transform gw t (id_field d) s) = map (\<lambda>x. if x = d then g c else x) ds"
      unfolding that(1) store by (rule upd)
    then show ?thesis using that(2) by blast
  qed
  show ?thesis
  proof (cases t)
    case BgRemoval
    show ?thesis
    proof (cases "bgRemoved c \<or> isl (transform_result gw BgRemoval (imageUrl c))")
      case True
      then have "generatedDesigns (apply_transform gw t (id_field d) s) = generatedDesigns s"
        using f BgRemoval by (auto simp: store_handleRemoveBackground split: sum.splits)
      then show ?thesis by (rule keep)
    next
      case False
      then obtain u where u: "transform_result gw BgRemoval (imageUrl c) = Inr u"
        by (cases "transform_result gw BgRemoval (imageUrl c)") auto
      have "generatedDesigns (apply_transform gw t (id_field d) s)
          = map (\<lambda>x. if id_field x = id_field d then (\<lambda>y. y\<lparr>imageUrl := u, bgRemoved := True\<rparr>) x else x)
              (generatedDesigns s)"
        using f BgRemoval False u by (simp add: store_handleRemoveBackground)
      then show ?thesis
        by (rule change) (use same in \<open>simp add: creation_fields_def\<close>)
    qed
  next
    case Upscaling
    show ?thesis
    proof (cases "upscaled c \<or> isl (transform_result gw Upscaling (imageUrl c))")
      case True
      then have "generatedDesigns (apply_transform gw t (id_field d) s) = generatedDesigns s"
        using f Upscaling by (auto simp: store_handleUpscale split: sum.splits)
      then show ?thesis by (rule keep)
    next
      case False
      then obtain u where u: "transform_result gw Upscaling (imageUrl c) = Inr u"
        by (cases "transform_result gw Upscaling (imageUrl c)") auto
      have "generatedDesigns (apply_transform gw t (id_field d) s)
          = map (\<lambda>x. if id_field x = id_field d then (\<lambda>y. y\<lparr>imageUrl := u, upscaled := True\<rparr>) x else x)
              (generatedDesigns s)"
        using f Upscaling False u by (simp add: store_handleUpscale)
      then show ?thesis
        by (rule change) (use same in \<open>simp add: creation_fields_def\<close>)
    qed
  qed
qed

lemma transforms_track:
  assumes dist: "distinct (map id_field ds)" and mem: "d \<in> set ds"
    and store: "generatedDesigns s = map (\<lambda>x. if x = d then c else x) ds"
    and same: "creation_fields c = creation_fields d"
  shows "\<exists>c'. generatedDesigns (apply_transforms steps (id_field d) s) = map (\<lambda>x. if x = d then c' else x) ds
           \<and> creation_fields c' = creation_fields d"
  using store same
proof (induction steps arbitrary: s c)
  case Nil
  then show ?case by auto
next
  case (Cons step steps)
  obtain gw t where step: "step = (gw, t)" by (cases step)
  from transform_tracks [OF dist mem Cons.prems(1) Cons.prems(2)]
  obtain c' where
    "generatedDesigns (apply_transform gw t (id_field d) s) = map (\<lambda>x. if x = d then c' else x) ds"
    "creation_fields c' = creation_fields d"
    by blast
  from Cons.IH [OF this] show ?case by (simp add: step)
qed

lemma revert_tracked:
  assumes dist: "distinct (map id_field ds)" and mem: "d \<in> set ds"
    and store: "generatedDesigns s = map (\<lambda>x. if x = d then c else x) ds"
    and same: "creation_fields c = creation_fields d"
  shows "generatedDesigns (handleRevert (id_field d) s)
         = map (\<lambda>x. if x = d
                     then (if imageUrl c = originalImageUrl c then c
                           else c\<lparr>imageUrl := originalImageUrl c, bgRemoved := False, upscaled := False\<rparr>)
                     else x) ds"
    and "imageUrl c = originalImageUrl c \<Longrightarrow> handleRevert (id_field d) s = s"
proof -
  have idc: "id_field c = id_field d"
    using same by (simp add: creation_fields_def)
  have f: "find (\<lambda>x. id_field x = id_field d) (generatedDesigns s) = Some c"
    unfolding store by (rule find_replaced [OF dist mem idc])
  show "imageUrl c = originalImageUrl c \<Longrightarrow> handleRevert (id_field d) s = s"
    using f by (simp add: handleRevert_def)
  show "generatedDesigns (handleRevert (id_field d) s)
         = map (\<lambda>x. if x = d
                     then (if imageUrl c = originalImageUrl c then c
                           else c\<lparr>imageUrl := originalImageUrl c, bgRemoved := False, upscaled := False\<rparr>)
                     else x) ds"
  proof (cases "imageUrl c = originalImageUrl c")
    case True
    then have "generatedDesigns (handleRevert (id_field d) s) = generatedDesigns s"
      using f by (simp add: store_handleRevert)
    then show ?thesis using True by (simp add: store)
  next
    case False
    then have "generatedDesigns (handleRevert (id_field d) s)
        = map (\<lambda>x. if id_field x = id_field d
                    then (\<lambda>y. y\<lparr>imageUrl := originalImageUrl c, bgRemoved := False, upscaled := False\<rparr>) x
                    else x) (generatedDesigns s)"
      using f by (simp add: store_handleRevert)
    also have "\<dots> = map (\<lambda>x. if x = d
                    then c\<lparr>imageUrl := originalImageUrl c, bgRemoved := False, upscaled := False\<rparr>
                    else x) ds"
      unfolding store by (rule update_replaced [OF dist mem idc])
    finally show ?thesis using False by simp
  qed
qed

lemma nth_replaced:
  assumes "distinct (map id_field ds)" and "k < length ds" and "j < length ds"
  shows "map (\<lambda>x. if x = ds ! k then c else x) ds ! j = (if j = k then c else ds ! j)"
proof -
  have "distinct ds" using assms(1) by (simp add: distinct_map)
  then have "(ds ! j = ds ! k) = (j = k)"
    using assms(2,3) by (simp add: nth_eq_iff_index_eq)
  then show ?thesis using assms(3) by simp
qed

subsection \<open>The flag after a background removal\<close>

lemma second_removal_returns:
  assumes "find (\<lambda>d. id_field d = i) (generatedDesigns st) = Some design"
    and "bgRemoved design"
  shows "handleRemoveBackground gw i st = st"
  using assms by (simp add: handleRemoveBackground_def)

lemma flag_after_removal:
  assumes "find (\<lambda>d. id_field d = i) (generatedDesigns st) = Some design"
    and "bgRemoved design \<or> \<not> isl (transform_result gw BgRemoval (imageUrl design))"
  shows "\<exists>design'. find (\<lambda>d. id_field d = i) (generatedDesigns (handleRemoveBackground gw i st)) = Some design'
           \<and> bgRemoved design'"
proof (cases "bgRemoved design")
  case True
  then show ?thesis using assms(1) by (simp add: store_handleRemoveBackground)
next
  case False
  then obtain u where u: "transform_result gw BgRemoval (imageUrl design) = Inr u"
    using assms(2) by (cases "transform_result gw BgRemoval (imageUrl design)") auto
  have "find (\<lambda>d. id_field d = i)
          (map (\<lambda>d. if id_field d = i then d\<lparr>imageUrl := u, bgRemoved := True\<rparr> else d) (generatedDesigns st))
        = Some (design\<lparr>imageUrl := u, bgRemoved := True\<rparr>)"
    by (rule find_map_update [OF assms(1)]) (simp add: find_Some_id [OF assms(1)])
  then show ?thesis
    using assms(1) False u by (simp add: store_handleRemoveBackground)
qed


section \<open>Unknown identifiers\<close>

text \<open>
  Claim C10. When no design of the store has the identifier passed to
  \<open>handleRemoveBackground\<close>, \<open>handleUpscale\<close>, \<open>handleRemix\<close> or \<open>handleRevert\<close>, the
  handler returns the state it was given: no design changes, no message is shown, and
  the result is a state, not an error.
\<close>

theorem unknown_id_leaves_state:
  assumes "i \<notin> id_field ` set (generatedDesigns st)"
  shows "handleRemoveBackground gw i st = st \<and> handleUpscale gw i st = st
         \<and> handleRemix gw i st = st \<and> handleRevert i st = st"
  using find_None_unknown [OF assms]
  by (simp add: handleRemoveBackground_def handleUpscale_def handleRemix_def handleRevert_def)

theorem unknown_id_leaves_state_witness:
  "''zz'' \<notin> id_field ` set (generatedDesigns st1)
   \<and> handleRemoveBackground gw_up ''zz'' st1 = st1 \<and> handleUpscale gw_up ''zz'' st1 = st1
   \<and> handleRemix gw_up ''zz'' st1 = st1 \<and> handleRevert ''zz'' st1 = st1"
proof -
  have h: "''zz'' \<notin> id_field ` set (generatedDesigns st1)"
    by (simp add: st1_def d1_def)
  show ?thesis
    using h unknown_id_leaves_state [OF h, of gw_up] by simp
qed

section \<open>Failed service calls\<close>

text \<open>
  Claim C6. When the \<open>try\<close> block of \<open>handleRemoveBackground\<close> or of \<open>handleUpscale\<close>
  throws for the design found under the identifier, the list of designs after the call
  is the list before it. \<open>try_generate\<close> throws when the metadata call throws and when
  the image call throws; then \<open>generateSingleDesign\<close> returns \<open>null\<close>, and neither
  \<open>handleRemix\<close> nor \<open>handleGenerateFromIdea\<close> adds a design.
\<close>

theorem failed_calls_keep_store:
  "(find (\<lambda>d. id_field d = i) (generatedDesigns st) = Some design \<longrightarrow>
      (transform_result gw BgRemoval (imageUrl design) = Inl e \<longrightarrow>
         generatedDesigns (handleRemoveBackground gw i st) = generatedDesigns st)
    \<and> (transform_result gw Upscaling (imageUrl design) = Inl e \<longrightarrow>
         generatedDesigns (handleUpscale gw i st) = generatedDesigns st)
    \<and> (try_generate gw (originalIdea design) = Inl e \<longrightarrow>
         generatedDesigns (handleRemix gw i st) = generatedDesigns st))
   \<and> (generateMetadataAndPrompt gw idea = Inl e \<longrightarrow> try_generate gw idea = Inl e)
   \<and> (generateMetadataAndPrompt gw2 idea = Inr (image_prompt, md) \<longrightarrow>
        generateImageFromPrompt gw2 image_prompt = Inl e2 \<longrightarrow> try_generate gw2 idea = Inl e2)
   \<and> (try_generate gw idea = Inl e \<longrightarrow>
        fst (generateSingleDesign gw idea st) = None
        \<and> generatedDesigns (snd (generateSingleDesign gw idea st)) = generatedDesigns st
        \<and> generatedDesigns (handleGenerateFromIdea gw idea st) = generatedDesigns st)"
  by (auto simp: store_handleRemoveBackground store_handleUpscale store_handleRemix
        store_handleGenerateFromIdea generateSingleDesign_def try_generate_def)

theorem failed_calls_keep_store_witness:
  "find (\<lambda>d. id_field d = ''d1'') (generatedDesigns st1) = Some d1
   \<and> transform_result gw_down BgRemoval (imageUrl d1) = Inl (Error ''503'')
   \<and> transform_result gw_down Upscaling (imageUrl d1) = Inl (Error ''503'')
   \<and> try_generate gw_down (originalIdea d1) = Inl (Error ''503'')
   \<and> generateMetadataAndPrompt gw_down ''cat'' = Inl (Error ''503'')
   \<and> generateMetadataAndPrompt gw_noimage ''cat'' = Inr (''draw cat'', md1)
   \<and> generateImageFromPrompt gw_noimage ''draw cat'' = Inl (Error ''no image'')
   \<and> try_generate gw_down ''cat'' = Inl (Error ''503'')
   \<and> generatedDesigns (handleRemoveBackground gw_down ''d1'' st1) = [d1]
   \<and> generatedDesigns (handleUpscale gw_down ''d1'' st1) = [d1]
   \<and> generatedDesigns (handleRemix gw_down ''d1'' st1) = [d1]
   \<and> try_generate gw_noimage ''cat'' = Inl (Error ''no image'')
   \<and> fst (generateSingleDesign gw_down ''cat'' st1) = None
   \<and> generatedDesigns (handleGenerateFromIdea gw_down ''cat'' st1) = [d1]"
proof -
  have h1: "find (\<lambda>d. id_field d = ''d1'') (generatedDesigns st1) = Some d1"
    by (simp add: st1_def d1_def)
  have h2: "transform_result gw_down BgRemoval (imageUrl d1) = Inl (Error ''503'')"
    by (simp add: transform_result_def gw_down_def)
  have h3: "transform_result gw_down Upscaling (imageUrl d1) = Inl (Error ''503'')"
    by (simp add: transform_result_def gw_down_def)
  have h4: "generateMetadataAndPrompt gw_down ''cat'' = Inl (Error ''503'')"
    by (simp add: gw_down_def)
  have h5: "try_generate gw_down (originalIdea d1) = Inl (Error ''503'')"
    by (simp add: try_generate_def gw_down_def)
  have h6: "generateMetadataAndPrompt gw_noimage ''cat'' = Inr (''draw cat'', md1)"
    by (simp add: gw_noimage_def)
  have h7: "generateImageFromPrompt gw_noimage ''draw cat'' = Inl (Error ''no image'')"
    by (simp add: gw_noimage_def)
  have h8: "originalIdea d1 = ''cat''" "generatedDesigns st1 = [d1]"
    by (simp_all add: d1_def st1_def)
  show ?thesis
    using h1 h2 h3 h4 h5 h6 h7 h8
      failed_calls_keep_store [where i = "''d1''" and st = st1 and design = d1 and gw = gw_down
        and e = "Error ''503''" and idea = "''cat''" and ?gw2.0 = gw_noimage
        and image_prompt = "''draw cat''" and md = md1 and ?e2.0 = "Error ''no image''"]
    by simp
qed

section \<open>Bulk generation with one failing idea\<close>

text \<open>
  Claim C2. Let idea \<open>k\<close> of a bulk run fail (\<open>try_generate\<close> throws in the world of
  iteration \<open>k\<close>) and every other idea succeed. The loop generates one idea per iteration,
  in order, and when it ends the list of designs is exactly the designs generated for
  the ideas before \<open>k\<close> followed by those for the ideas after \<open>k\<close>: the failure does not
  stop the loop.
\<close>

theorem bulk_skips_failed_idea:
  assumes "k < length ideas"
    and "isl (try_generate (w k) (ideas ! k))"
    and "\<forall>j < length ideas. j \<noteq> k \<longrightarrow> \<not> isl (try_generate (w j) (ideas ! j))"
  shows "generatedDesigns (bulk_generate w ideas st) =
           map (\<lambda>j. projr (try_generate (w j) (ideas ! j))) ([0..<k] @ [Suc k..<length ideas])"
proof -
  let ?g = "\<lambda>j. case try_generate (w j) (ideas ! j) of Inr d \<Rightarrow> [d] | Inl e \<Rightarrow> []"
  let ?h = "\<lambda>j. projr (try_generate (w j) (ideas ! j))"
  have ok: "?g j = [?h j]" if "j < length ideas" "j \<noteq> k" for j
    using assms(3) that by (cases "try_generate (w j) (ideas ! j)") auto
  have bad: "?g k = []"
    using assms(2) by (cases "try_generate (w k) (ideas ! k)") auto
  have upt: "[0..<length ideas] = [0..<k] @ k # [Suc k..<length ideas]"
  proof -
    have "[0..<k + (length ideas - k)] = [0..<k] @ [k..<k + (length ideas - k)]"
      by (rule upt_add_eq_append) simp
    then show ?thesis
      using assms(1) by (simp add: upt_conv_Cons)
  qed
  have a: "concat (map ?g [0..<k]) = map ?h [0..<k]"
    using assms(1) by (intro concat_map_singletons ok) auto
  have b: "concat (map ?g [Suc k..<length ideas]) = map ?h [Suc k..<length ideas]"
    by (intro concat_map_singletons ok) auto
  have "generated w ideas = map ?h ([0..<k] @ [Suc k..<length ideas])"
    unfolding generated_def by (subst upt) (simp add: a b bad del: upt_Suc)
  moreover have "ideas \<noteq> []" using assms(1) by auto
  ultimately show ?thesis by (simp add: store_bulk_generate)
qed

theorem bulk_skips_failed_idea_witness:
  "(1::nat) < length [''cat'', ''dog'', ''owl'']
   \<and> isl (try_generate (world_second_down 1) ([''cat'', ''dog'', ''owl''] ! 1))
   \<and> \<not> isl (try_generate (world_second_down 0) ([''cat'', ''dog'', ''owl''] ! 0))
   \<and> \<not> isl (try_generate (world_second_down 2) ([''cat'', ''dog'', ''owl''] ! 2))
   \<and> generatedDesigns (bulk_generate world_second_down [''cat'', ''dog'', ''owl''] st1)
       = [made ''u0'' ''cat'', made ''u2'' ''owl'']"
proof -
  let ?ideas = "[''cat'', ''dog'', ''owl'']"
  have h1: "(1::nat) < length ?ideas" by simp
  have h2: "isl (try_generate (world_second_down 1) (?ideas ! 1))"
    by (simp add: world_second_down_def try_generate_def gw_down_def)
  have h0: "\<not> isl (try_generate (world_second_down 0) (?ideas ! 0))"
    and h4: "\<not> isl (try_generate (world_second_down 2) (?ideas ! 2))"
    by (simp_all add: world_second_down_def try_generate_def gw_up_def)
  have h3: "\<forall>j < length ?ideas. j \<noteq> 1 \<longrightarrow> \<not> isl (try_generate (world_second_down j) (?ideas ! j))"
    by (simp add: world_second_down_def try_generate_def gw_up_def)
  have v0: "projr (try_generate (world_second_down 0) ''cat'') = made ''u0'' ''cat''"
    by (simp add: world_second_down_def try_generate_def gw_up_def made_def
          decimal.simps digit_def)
  have v2: "projr (try_generate (world_second_down 2) ''owl'') = made ''u2'' ''owl''"
    by (simp add: world_second_down_def try_generate_def gw_up_def made_def
          decimal.simps digit_def)
  have upt: "[0..<1] @ [Suc 1..<length ?ideas] = [0, 2]"
    by (simp add: upt_conv_Cons)
  show ?thesis
    using h0 h1 h2 h4 bulk_skips_failed_idea [OF h1 h2 h3, of st1]
    unfolding upt by (simp add: v0 v2)
qed

section \<open>Which operations drop designs\<close>

text \<open>
  Claim C1, as stated, fails: \<open>handleBulkGeneration\<close> starts with
  \<open>setGeneratedDesigns([])\<close>. With one design in the store and the idea \<open>cat\<close> in the
  prompt, a bulk run whose calls all fail leaves the store empty, and a bulk run whose
  calls succeed leaves only the new design.
\<close>

theorem bulk_generation_replaces_store:
  "generatedDesigns st1 = [d1]
   \<and> generatedDesigns (handleBulkGeneration all_down st1) = []
   \<and> generatedDesigns (handleBulkGeneration all_up st1) = [made ''d2'' ''cat'']
   \<and> d1 \<noteq> made ''d2'' ''cat''"
  by (simp add: handleBulkGeneration_def st1_def parse_ideas_def trim_def is_space_def
        bulk_generate_def generateSingleDesign_def try_generate_def gw_down_def gw_up_def
        all_down_def all_up_def showMessage_def made_def d1_def)

text \<open>
  Claim C1, amended. Generating from one idea, removing a background, upscaling,
  remixing and reverting keep every design of the store at its position, with its
  identifier, metadata, original image and idea, so none of them empties a store that
  holds a design. A bulk run over at least one idea replaces the store by the designs
  it generates; over no idea it leaves the store alone. Clearing empties the store
  when the user confirms.
\<close>

theorem only_bulk_and_clear_drop_designs:
  "prefix (map creation_fields (generatedDesigns st)) (map creation_fields (generatedDesigns (run gw c st)))
   \<and> (generatedDesigns st \<noteq> [] \<longrightarrow> generatedDesigns (run gw c st) \<noteq> [])
   \<and> generatedDesigns (bulk_generate w ideas st) = (if ideas = [] then generatedDesigns st else generated w ideas)
   \<and> generatedDesigns (handleClearSession gw st) = (if confirm gw then [] else generatedDesigns st)"
proof -
  have p: "prefix (map creation_fields (generatedDesigns st)) (map creation_fields (generatedDesigns (run gw c st)))"
    by (rule run_keeps_creation_fields)
  have "generatedDesigns (run gw c st) \<noteq> []" if "generatedDesigns st \<noteq> []"
    using p that by (auto simp: prefix_def)
  then show ?thesis
    using p by (simp add: store_bulk_generate handleClearSession_def)
qed

theorem only_bulk_and_clear_drop_designs_witness:
  "generatedDesigns st1 \<noteq> []
   \<and> generatedDesigns (run gw_up (Remix ''d1'') st1) = [d1, made ''d2'' ''cat'']
   \<and> prefix (map creation_fields (generatedDesigns st1))
        (map creation_fields (generatedDesigns (run gw_up (Remix ''d1'') st1)))
   \<and> generatedDesigns (run gw_up (Remix ''d1'') st1) \<noteq> []
   \<and> generatedDesigns (handleClearSession gw_up st1) = []"
proof -
  have h: "generatedDesigns st1 \<noteq> []"
    by (simp add: st1_def)
  have v: "generatedDesigns (run gw_up (Remix ''d1'') st1) = [d1, made ''d2'' ''cat'']"
    by (simp add: store_handleRemix st1_def d1_def try_generate_def gw_up_def made_def)
  have c: "confirm gw_up"
    by (simp add: gw_up_def)
  show ?thesis
    using h v c only_bulk_and_clear_drop_designs [of st1 gw_up "Remix ''d1''" all_up "[]"]
    by simp
qed

section \<open>Removing a background twice\<close>

text \<open>
  Claim C4. In a fixed world, \<open>handleRemoveBackground\<close> applied twice to the same
  identifier gives the state that one application gives. When the first call finds the
  design with \<open>bgRemoved\<close> set, or its \<open>try\<close> block returns so that the flag is set,
  the second call changes nothing in any world: it returns at the test of the flag, so
  no design and no message changes.
\<close>

theorem removeBackground_twice:
  "handleRemoveBackground gw i (handleRemoveBackground gw i st) = handleRemoveBackground gw i st
   \<and> (find (\<lambda>d. id_field d = i) (generatedDesigns st) = Some design \<longrightarrow>
        bgRemoved design \<or> \<not> isl (transform_result gw BgRemoval (imageUrl design)) \<longrightarrow>
        handleRemoveBackground gw2 i (handleRemoveBackground gw i st) = handleRemoveBackground gw i st)"
proof -
  have later: "handleRemoveBackground gw' i (handleRemoveBackground gw i st) = handleRemoveBackground gw i st"
    if "find (\<lambda>d. id_field d = i) (generatedDesigns st) = Some d"
      and "bgRemoved d \<or> \<not> isl (transform_result gw BgRemoval (imageUrl d))" for gw' d
  proof -
    from flag_after_removal [OF that] obtain d' where
      "find (\<lambda>d. id_field d = i) (generatedDesigns (handleRemoveBackground gw i st)) = Some d'"
      and "bgRemoved d'" by blast
    then show ?thesis by (rule second_removal_returns)
  qed
  have same: "handleRemoveBackground gw i (handleRemoveBackground gw i st) = handleRemoveBackground gw i st"
  proof (cases "find (\<lambda>d. id_field d = i) (generatedDesigns st)")
    case None
    then show ?thesis by (simp add: handleRemoveBackground_def)
  next
    case (Some d)
    show ?thesis
    proof (cases "bgRemoved d \<or> \<not> isl (transform_result gw BgRemoval (imageUrl d))")
      case True
      with Some show ?thesis by (rule later)
    next
      case False
      then have "handleRemoveBackground gw i st = showMessage (message_or (projl (transform_result gw BgRemoval (imageUrl d))) ''BG removal failed.'') True st"
        using Some
        by (auto simp: handleRemoveBackground_def transform_result_def blobToDataUrl_def split: sum.splits)
      then show ?thesis
        using Some False
        by (auto simp: handleRemoveBackground_def transform_result_def blobToDataUrl_def split: sum.splits)
    qed
  qed
  from same later show ?thesis by blast
qed

theorem removeBackground_twice_witness:
  "find (\<lambda>d. id_field d = ''d1'') (generatedDesigns st1) = Some d1
   \<and> \<not> isl (transform_result gw_up BgRemoval (imageUrl d1))
   \<and> generatedDesigns (handleRemoveBackground gw_up ''d1'' st1)
       = [d1\<lparr>imageUrl := ''data:cut'', bgRemoved := True\<rparr>]
   \<and> handleRemoveBackground gw_down ''d1'' (handleRemoveBackground gw_up ''d1'' st1)
       = handleRemoveBackground gw_up ''d1'' st1
   \<and> handleRemoveBackground gw_up ''d1'' (handleRemoveBackground gw_up ''d1'' st1)
       = handleRemoveBackground gw_up ''d1'' st1"
proof -
  have h1: "find (\<lambda>d. id_field d = ''d1'') (generatedDesigns st1) = Some d1"
    by (simp add: st1_def d1_def)
  have h2: "\<not> isl (transform_result gw_up BgRemoval (imageUrl d1))"
    by (simp add: transform_result_def blobToDataUrl_def gw_up_def)
  have v: "generatedDesigns (handleRemoveBackground gw_up ''d1'' st1)
       = [d1\<lparr>imageUrl := ''data:cut'', bgRemoved := True\<rparr>]"
    by (simp add: store_handleRemoveBackground transform_result_def blobToDataUrl_def
          gw_up_def st1_def d1_def)
  show ?thesis
    using h1 h2 v
      removeBackground_twice [where gw = gw_up and i = "''d1''" and st = st1 and design = d1
        and ?gw2.0 = gw_down]
    by simp
qed

section \<open>The original image\<close>

text \<open>
  Claim C5. \<open>try_generate\<close> creates a design with \<open>originalImageUrl\<close> equal to the image
  that the image call returned. After any sequence of calls of \<open>handleGenerateFromIdea\<close>,
  \<open>handleRemoveBackground\<close>, \<open>handleUpscale\<close>, \<open>handleRemix\<close> and \<open>handleRevert\<close>, in
  any worlds, every design of the store is at its position with the identifier and the
  \<open>originalImageUrl\<close> it had. \<open>updateDesign\<close> changes no \<open>originalImageUrl\<close> unless
  the update itself names that key, and the handlers, its only callers, name
  \<open>imageUrl\<close>, \<open>bgRemoved\<close> and \<open>upscaled\<close> only.
\<close>


theorem originalImageUrl_is_kept:
  "(\<forall>k < length (generatedDesigns st).
      k < length (generatedDesigns (run_all steps st))
      \<and> id_field (generatedDesigns (run_all steps st) ! k) = id_field (generatedDesigns st ! k)
      \<and> originalImageUrl (generatedDesigns (run_all steps st) ! k) = originalImageUrl (generatedDesigns st ! k))
   \<and> (try_generate gw idea = Inr d \<longrightarrow>
        originalImageUrl d = imageUrl d
        \<and> (\<exists>image_prompt md. generateMetadataAndPrompt gw idea = Inr (image_prompt, md)
              \<and> generateImageFromPrompt gw image_prompt = Inr (originalImageUrl d)))
   \<and> (p_originalImageUrl updates = None \<longrightarrow>
        map originalImageUrl (generatedDesigns (updateDesign i updates st))
        = map originalImageUrl (generatedDesigns st))"
proof -
  let ?ds = "generatedDesigns st" and ?ds' = "generatedDesigns (run_all steps st)"
  have p: "prefix (map creation_fields ?ds) (map creation_fields ?ds')"
    by (rule run_all_keeps_creation_fields)
  have a: "k < length ?ds' \<and> id_field (?ds' ! k) = id_field (?ds ! k)
           \<and> originalImageUrl (?ds' ! k) = originalImageUrl (?ds ! k)" if "k < length ?ds" for k
  proof -
    from prefix_nth [OF p, of k] that
    have "k < length ?ds'" and "creation_fields (?ds' ! k) = creation_fields (?ds ! k)"
      by auto
    then show ?thesis by (simp add: creation_fields_def)
  qed
  have b: "try_generate gw idea = Inr d \<longrightarrow>
        originalImageUrl d = imageUrl d
        \<and> (\<exists>image_prompt md. generateMetadataAndPrompt gw idea = Inr (image_prompt, md)
              \<and> generateImageFromPrompt gw image_prompt = Inr (originalImageUrl d))"
    by (auto simp: try_generate_def split: sum.splits prod.splits)
  have c: "p_originalImageUrl updates = None \<longrightarrow>
        map originalImageUrl (generatedDesigns (updateDesign i updates st))
        = map originalImageUrl (generatedDesigns st)"
    by (simp add: generatedDesigns_updateDesign spread_def comp_def cong: map_cong)
  from a b c show ?thesis by blast
qed

theorem originalImageUrl_is_kept_witness:
  "(0::nat) < length (generatedDesigns st1)
   \<and> 0 < length (generatedDesigns (run_all
         [(gw_up, RemoveBackground ''d1''), (gw_up, Upscale ''d1''), (gw_up, Remix ''d1''),
          (gw_up, Revert ''d1'')] st1))
   \<and> originalImageUrl (generatedDesigns (run_all
         [(gw_up, RemoveBackground ''d1''), (gw_up, Upscale ''d1''), (gw_up, Remix ''d1''),
          (gw_up, Revert ''d1'')] st1) ! 0) = ''img1''
   \<and> try_generate gw_up ''cat'' = Inr (made ''d2'' ''cat'')
   \<and> originalImageUrl (made ''d2'' ''cat'') = imageUrl (made ''d2'' ''cat'')
   \<and> p_originalImageUrl (no_updates\<lparr>p_imageUrl := Some ''edited''\<rparr>) = None
   \<and> map originalImageUrl
        (generatedDesigns (updateDesign ''d1'' (no_updates\<lparr>p_imageUrl := Some ''edited''\<rparr>) st1))
       = [''img1'']"
proof -
  let ?steps = "[(gw_up, RemoveBackground ''d1''), (gw_up, Upscale ''d1''), (gw_up, Remix ''d1''),
                 (gw_up, Revert ''d1'')]"
  let ?u = "no_updates\<lparr>p_imageUrl := Some ''edited''\<rparr>"
  note t = originalImageUrl_is_kept [where st = st1 and steps = ?steps and gw = gw_up
      and idea = "''cat''" and d = "made ''d2'' ''cat''" and updates = ?u and i = "''d1''"]
  have h1: "(0::nat) < length (generatedDesigns st1)"
    by (simp add: st1_def)
  have h2: "try_generate gw_up ''cat'' = Inr (made ''d2'' ''cat'')"
    by (simp add: try_generate_def gw_up_def made_def)
  have h3: "p_originalImageUrl ?u = None"
    by (simp add: no_updates_def)
  have o: "originalImageUrl (generatedDesigns st1 ! 0) = ''img1''"
      "map originalImageUrl (generatedDesigns st1) = [''img1'']"
    by (simp_all add: st1_def d1_def)
  from t h1 have a: "0 < length (generatedDesigns (run_all ?steps st1))
      \<and> originalImageUrl (generatedDesigns (run_all ?steps st1) ! 0)
          = originalImageUrl (generatedDesigns st1 ! 0)"
    by blast
  from t h2 have b: "originalImageUrl (made ''d2'' ''cat'') = imageUrl (made ''d2'' ''cat'')"
    by blast
  from t h3 have c: "map originalImageUrl (generatedDesigns (updateDesign ''d1'' ?u st1))
      = map originalImageUrl (generatedDesigns st1)"
    by blast
  show ?thesis
    using h1 h2 h3 a b c by (simp add: o)
qed

section \<open>Metadata export\<close>

text \<open>
  Claim C9. The array that \<open>downloadMetadataAsXLSX\<close> hands to the spreadsheet library
  has one object per design, in the order of the designs. Each object has the keys
  Title, Description, Tags, Type, Color and OriginalIdea, in this order, with the five
  metadata fields of the design and, under OriginalIdea, its \<open>originalIdea\<close> unchanged.
\<close>

theorem metadata_rows:
  "length (worksheetData (downloadMetadataAsXLSX designs)) = length designs
   \<and> (\<forall>k < length designs.
        map fst (worksheetData (downloadMetadataAsXLSX designs) ! k)
          = [''Title'', ''Description'', ''Tags'', ''Type'', ''Color'', ''OriginalIdea'']
        \<and> map snd (worksheetData (downloadMetadataAsXLSX designs) ! k)
          = [Title (metadata (designs ! k)), Description (metadata (designs ! k)),
             Tags (metadata (designs ! k)), Type (metadata (designs ! k)),
             Color (metadata (designs ! k)), originalIdea (designs ! k)]
        \<and> map_of (worksheetData (downloadMetadataAsXLSX designs) ! k) ''OriginalIdea''
          = Some (originalIdea (designs ! k)))"
  by (simp add: downloadMetadataAsXLSX_def)

theorem metadata_rows_witness:
  "(1::nat) < length [d1, made ''d2'' ''dog'']
   \<and> length (worksheetData (downloadMetadataAsXLSX [d1, made ''d2'' ''dog''])) = 2
   \<and> map fst (worksheetData (downloadMetadataAsXLSX [d1, made ''d2'' ''dog'']) ! 1)
       = [''Title'', ''Description'', ''Tags'', ''Type'', ''Color'', ''OriginalIdea'']
   \<and> map_of (worksheetData (downloadMetadataAsXLSX [d1, made ''d2'' ''dog'']) ! 1) ''OriginalIdea''
       = Some ''dog''"
proof -
  let ?designs = "[d1, made ''d2'' ''dog'']"
  have h: "(1::nat) < length ?designs" by simp
  have o: "originalIdea (?designs ! 1) = ''dog''"
    by (simp add: made_def)
  from metadata_rows [of ?designs] h
  have "length (worksheetData (downloadMetadataAsXLSX ?designs)) = length ?designs"
    and "map fst (worksheetData (downloadMetadataAsXLSX ?designs) ! 1)
          = [''Title'', ''Description'', ''Tags'', ''Type'', ''Color'', ''OriginalIdea'']"
    and "map_of (worksheetData (downloadMetadataAsXLSX ?designs) ! 1) ''OriginalIdea''
          = Some (originalIdea (?designs ! 1))"
    by blast+
  then show ?thesis
    using h by (simp add: o made_def)
qed

text \<open>
  The function of the same name in the module that \<open>App\<close> does not import also writes
  one row per design in order, under other keys and without the idea.
\<close>

lemma direct_export_rows:
  "length (worksheetData (downloadMetadataAsXLSX_direct mds)) = length mds
   \<and> (\<forall>k < length mds.
        map fst (worksheetData (downloadMetadataAsXLSX_direct mds) ! k)
          = [''Image Path'', ''Language'', ''Title'', ''Description'', ''Tags'', ''Type'', ''Color'']
        \<and> map_of (worksheetData (downloadMetadataAsXLSX_direct mds) ! k) ''Title'' = Some (Title (mds ! k)))"
  by (simp add: downloadMetadataAsXLSX_direct_def)

section \<open>Reverting after transforms\<close>

text \<open>
  Claim C3, as stated, fails: \<open>handleRevert\<close> returns at once when the image equals the
  original image, and then the flags stay. When the background service returns the image
  it was sent, the removal succeeds and sets \<open>bgRemoved\<close>, the image still equals the
  original, and the revert that follows changes nothing.
\<close>

theorem revert_keeps_flag_of_unchanged_image:
  "d1 \<in> set (generatedDesigns st1)
   \<and> imageUrl d1 = originalImageUrl d1 \<and> \<not> bgRemoved d1 \<and> \<not> upscaled d1
   \<and> transform_result gw_echo BgRemoval (imageUrl d1) = Inr (originalImageUrl d1)
   \<and> generatedDesigns (apply_transforms [(gw_echo, BgRemoval)] ''d1'' st1) = [d1\<lparr>bgRemoved := True\<rparr>]
   \<and> generatedDesigns (handleRevert ''d1'' (apply_transforms [(gw_echo, BgRemoval)] ''d1'' st1))
       = [d1\<lparr>bgRemoved := True\<rparr>]"
  by (simp add: st1_def d1_def transform_result_def blobToDataUrl_def gw_echo_def
        store_handleRemoveBackground store_handleRevert)

text \<open>
  Claim C3, amended. Let the identifiers of the store be distinct and \<open>d\<close> the design at
  position \<open>k\<close>. After any sequence of background removals and upscalings of \<open>d\<close>, in
  any worlds, and a revert of \<open>d\<close>, the store has the length it had, every other design
  is as it was before the sequence, and \<open>d\<close> has the identifier, metadata, original
  image and idea it had, with \<open>imageUrl\<close> equal to \<open>originalImageUrl\<close>. When the image
  before the revert differs from the original image, both flags are clear after the
  revert. When the image before the revert is the original image, the revert returns
  the state unchanged, so the flags stay as they are.
\<close>

theorem revert_after_transforms:
  fixes st :: App and steps :: "(Gateway \<times> Transform) list" and k :: nat
  defines "d \<equiv> generatedDesigns st ! k"
  defines "before \<equiv> apply_transforms steps (id_field d) st"
  defines "after \<equiv> handleRevert (id_field d) before"
  assumes "distinct (map id_field (generatedDesigns st))"
    and "k < length (generatedDesigns st)"
  shows "length (generatedDesigns after) = length (generatedDesigns st)
       \<and> creation_fields (generatedDesigns after ! k) = creation_fields d
       \<and> imageUrl (generatedDesigns after ! k) = originalImageUrl d
       \<and> (imageUrl (generatedDesigns before ! k) \<noteq> originalImageUrl d \<longrightarrow>
            \<not> bgRemoved (generatedDesigns after ! k) \<and> \<not> upscaled (generatedDesigns after ! k))
       \<and> (imageUrl (generatedDesigns before ! k) = originalImageUrl d \<longrightarrow> after = before)
       \<and> (\<forall>j < length (generatedDesigns st). j \<noteq> k \<longrightarrow>
            generatedDesigns after ! j = generatedDesigns st ! j)"
proof -
  let ?ds = "generatedDesigns st"
  have dist: "distinct (map id_field ?ds)" and k: "k < length ?ds"
    using assms by simp_all
  have mem: "d \<in> set ?ds"
    using k by (simp add: d_def)
  have start: "?ds = map (\<lambda>x. if x = d then d else x) ?ds"
    by (induction ?ds) auto
  from transforms_track [OF dist mem start refl, of steps]
  obtain c where c: "generatedDesigns before = map (\<lambda>x. if x = d then c else x) ?ds"
    and same: "creation_fields c = creation_fields d"
    unfolding before_def by blast
  let ?r = "if imageUrl c = originalImageUrl c then c
            else c\<lparr>imageUrl := originalImageUrl c, bgRemoved := False, upscaled := False\<rparr>"
  have r: "generatedDesigns after = map (\<lambda>x. if x = d then ?r else x) ?ds"
    unfolding after_def by (rule revert_tracked(1) [OF dist mem c same])
  have noop: "imageUrl c = originalImageUrl c \<Longrightarrow> after = before"
    unfolding after_def by (rule revert_tracked(2) [OF dist mem c same])
  have orig: "originalImageUrl c = originalImageUrl d"
    using same by (simp add: creation_fields_def)
  have ck: "generatedDesigns before ! k = c"
    unfolding c d_def using nth_replaced [OF dist k k] by simp
  have rj: "generatedDesigns after ! j = (if j = k then ?r else ?ds ! j)" if "j < length ?ds" for j
    unfolding r d_def by (rule nth_replaced [OF dist k that])
  have rk: "generatedDesigns after ! k = ?r"
    using rj [OF k] by simp
  have 1: "length (generatedDesigns after) = length ?ds"
    by (simp add: r)
  have 2: "creation_fields (generatedDesigns after ! k) = creation_fields d"
    unfolding rk using same by (simp add: creation_fields_def)
  have 3: "imageUrl (generatedDesigns after ! k) = originalImageUrl d"
    unfolding rk using orig by simp
  have 4: "imageUrl (generatedDesigns before ! k) \<noteq> originalImageUrl d \<longrightarrow>
            \<not> bgRemoved (generatedDesigns after ! k) \<and> \<not> upscaled (generatedDesigns after ! k)"
    unfolding rk ck using orig by simp
  have 5: "imageUrl (generatedDesigns before ! k) = originalImageUrl d \<longrightarrow> after = before"
    unfolding ck using noop orig by simp
  have 6: "\<forall>j < length ?ds. j \<noteq> k \<longrightarrow> generatedDesigns after ! j = ?ds ! j"
    using rj by simp
  from 1 2 3 4 5 6 show ?thesis by blast
qed

theorem revert_after_transforms_witness:
  "distinct (map id_field (generatedDesigns st2))
   \<and> (0::nat) < length (generatedDesigns st2)
   \<and> (1::nat) < length (generatedDesigns st2)
   \<and> generatedDesigns
         (handleRevert ''d1'' (apply_transforms [(gw_up, BgRemoval), (gw_up, Upscaling)] ''d1'' st2)) ! 1
       = generatedDesigns st2 ! 1
   \<and> imageUrl (generatedDesigns (apply_transforms [(gw_up, BgRemoval), (gw_up, Upscaling)] ''d1'' st2) ! 0)
       \<noteq> originalImageUrl d1
   \<and> generatedDesigns (apply_transforms [(gw_up, BgRemoval), (gw_up, Upscaling)] ''d1'' st2)
       = [d1\<lparr>imageUrl := ''data:big'', bgRemoved := True, upscaled := True\<rparr>, d6]
   \<and> \<not> bgRemoved (generatedDesigns
          (handleRevert ''d1'' (apply_transforms [(gw_up, BgRemoval), (gw_up, Upscaling)] ''d1'' st2)) ! 0)
   \<and> \<not> upscaled (generatedDesigns
          (handleRevert ''d1'' (apply_transforms [(gw_up, BgRemoval), (gw_up, Upscaling)] ''d1'' st2)) ! 0)
   \<and> generatedDesigns (handleRevert ''d1'' (apply_transforms [(gw_up, BgRemoval), (gw_up, Upscaling)] ''d1'' st2))
       = [d1, d6]
   \<and> imageUrl (generatedDesigns (apply_transforms [] ''d1'' st2) ! 0) = originalImageUrl d1
   \<and> handleRevert ''d1'' (apply_transforms [] ''d1'' st2) = apply_transforms [] ''d1'' st2"
proof -
  let ?steps = "[(gw_up, BgRemoval), (gw_up, Upscaling)]"
  let ?before = "apply_transforms ?steps ''d1'' st2"
  let ?after = "handleRevert ''d1'' ?before"
  have h1: "distinct (map id_field (generatedDesigns st2))"
    by (simp add: st2_def st1_def d1_def d6_def)
  have h2: "(0::nat) < length (generatedDesigns st2)"
    by (simp add: st2_def)
  have h3: "(1::nat) < length (generatedDesigns st2)"
    by (simp add: st2_def)
  have s: "generatedDesigns st2 ! 0 = d1" "id_field d1 = ''d1''"
    by (simp_all add: st2_def d1_def)
  have v: "generatedDesigns ?before
       = [d1\<lparr>imageUrl := ''data:big'', bgRemoved := True, upscaled := True\<rparr>, d6]"
    by (simp add: store_handleRemoveBackground store_handleUpscale transform_result_def
          blobToDataUrl_def gw_up_def st2_def st1_def d1_def d6_def)
  have r: "generatedDesigns ?after = [d1, d6]"
    unfolding store_handleRevert v by (simp add: d1_def d6_def)
  have ne: "imageUrl (generatedDesigns ?before ! 0) \<noteq> originalImageUrl d1"
    unfolding v by (simp add: d1_def)
  have e: "imageUrl (generatedDesigns (apply_transforms [] ''d1'' st2) ! 0) = originalImageUrl d1"
    by (simp add: s d1_def)
  note a = revert_after_transforms [OF h1 h2, of ?steps, unfolded s]
  note b = revert_after_transforms [OF h1 h2, of "[]", unfolded s]
  have f: "\<not> bgRemoved (generatedDesigns ?after ! 0) \<and> \<not> upscaled (generatedDesigns ?after ! 0)"
    by (rule a [THEN conjunct2, THEN conjunct2, THEN conjunct2, THEN conjunct1, THEN mp, OF ne])
  have n: "handleRevert ''d1'' (apply_transforms [] ''d1'' st2) = apply_transforms [] ''d1'' st2"
    by (rule b [THEN conjunct2, THEN conjunct2, THEN conjunct2, THEN conjunct2, THEN conjunct1,
          THEN mp, OF e])
  have o: "generatedDesigns ?after ! 1 = generatedDesigns st2 ! 1"
    by (rule a [THEN conjunct2, THEN conjunct2, THEN conjunct2, THEN conjunct2, THEN conjunct2,
          THEN spec, THEN mp, THEN mp, OF h3]) simp
  show ?thesis
    by (intro conjI) (rule h1 h2 h3 o ne v r e n f [THEN conjunct1] f [THEN conjunct2])+
qed

section \<open>Remix\<close>

text \<open>
  Claim C8, as stated, fails: the identifier of the new design is whatever
  \<open>crypto.randomUUID()\<close> returns, and no handler compares it with the identifiers of
  the store. In a world where it returns the identifier of the source design, the remix
  succeeds and the store holds two designs with one identifier.
\<close>

theorem remix_can_reuse_an_id:
  "distinct (map id_field (generatedDesigns st1))
   \<and> d1 \<in> set (generatedDesigns st1)
   \<and> try_generate gw_clash (originalIdea d1) = Inr (made ''d1'' ''cat'')
   \<and> generatedDesigns (handleRemix gw_clash (id_field d1) st1) = [d1, made ''d1'' ''cat'']
   \<and> id_field (made ''d1'' ''cat'') = id_field d1"
  by (simp add: st1_def d1_def gw_clash_def gw_up_def try_generate_def made_def store_handleRemix)

text \<open>
  Claim C8, amended. Let the identifiers of the store be distinct and \<open>d\<close> a design of the
  store. When the generation that \<open>handleRemix\<close> starts for \<open>d\<close> succeeds with the design
  \<open>d'\<close>, the store afterwards is the store before followed by \<open>d'\<close>, so \<open>d\<close> and every
  other design are as they were. \<open>d'\<close> has the idea of \<open>d\<close> and, as identifier, the value
  that \<open>crypto.randomUUID()\<close> returned; the identifiers of the store are distinct
  afterwards exactly when that value is not the identifier of a design already in the
  store. The metadata and the image of \<open>d'\<close> are what the two service calls returned for
  the idea.
\<close>

theorem remix_appends_new_design:
  assumes "distinct (map id_field (generatedDesigns st))"
    and "d \<in> set (generatedDesigns st)"
    and "try_generate gw (originalIdea d) = Inr d'"
  shows "generatedDesigns (handleRemix gw (id_field d) st) = generatedDesigns st @ [d']
         \<and> originalIdea d' = originalIdea d
         \<and> id_field d' = randomUUID gw
         \<and> distinct (map id_field (generatedDesigns (handleRemix gw (id_field d) st)))
             = (randomUUID gw \<notin> id_field ` set (generatedDesigns st))
         \<and> (\<exists>image_prompt. generateMetadataAndPrompt gw (originalIdea d) = Inr (image_prompt, metadata d')
              \<and> generateImageFromPrompt gw image_prompt = Inr (imageUrl d'))"
proof -
  have f: "find (\<lambda>x. id_field x = id_field d) (generatedDesigns st) = Some d"
    using assms(1,2) by (rule find_distinct)
  have s: "generatedDesigns (handleRemix gw (id_field d) st) = generatedDesigns st @ [d']"
    using f assms(3) by (simp add: store_handleRemix)
  have g: "originalIdea d' = originalIdea d \<and> id_field d' = randomUUID gw
     \<and> (\<exists>image_prompt. generateMetadataAndPrompt gw (originalIdea d) = Inr (image_prompt, metadata d')
              \<and> generateImageFromPrompt gw image_prompt = Inr (imageUrl d'))"
    using assms(3) by (auto simp: try_generate_def split: sum.splits prod.splits)
  show ?thesis
    using s g assms(1) by auto
qed

theorem remix_appends_new_design_witness:
  "distinct (map id_field (generatedDesigns st1))
   \<and> d1 \<in> set (generatedDesigns st1)
   \<and> try_generate gw_up (originalIdea d1) = Inr (made ''d2'' ''cat'')
   \<and> generatedDesigns (handleRemix gw_up (id_field d1) st1) = [d1, made ''d2'' ''cat'']
   \<and> originalIdea (made ''d2'' ''cat'') = originalIdea d1
   \<and> id_field (made ''d2'' ''cat'') = randomUUID gw_up
   \<and> randomUUID gw_up \<notin> id_field ` set (generatedDesigns st1)
   \<and> distinct (map id_field (generatedDesigns (handleRemix gw_up (id_field d1) st1)))"
proof -
  have h1: "distinct (map id_field (generatedDesigns st1))"
    and h2: "d1 \<in> set (generatedDesigns st1)"
    by (simp_all add: st1_def)
  have h3: "try_generate gw_up (originalIdea d1) = Inr (made ''d2'' ''cat'')"
    by (simp add: try_generate_def gw_up_def made_def d1_def)
  have h4: "randomUUID gw_up \<notin> id_field ` set (generatedDesigns st1)"
    by (simp add: gw_up_def st1_def d1_def)
  have s: "generatedDesigns st1 = [d1]"
    by (simp add: st1_def)
  show ?thesis
    using h1 h2 h3 h4 remix_appends_new_design [OF h1 h2 h3]
    by (simp add: s)
qed

section \<open>The resolution check\<close>

text \<open>
  Claim C7, as stated, fails: the resolution item reaches the user only inside the
  report that \<open>handleImageUpload\<close> stores after both remote analyses have returned, and
  the keys of the print response are spread over it. For an image of 5000 by 5500
  pixels, no report is stored when the print analysis throws, and the report carries the
  item of the response when the response has a \<open>resolution\<close> key.
\<close>

theorem upload_needs_both_analyses:
  "loaded upload_print_down = Some (5000, 5500)
   \<and> handleImageUpload upload_print_down st1 \<noteq> None
   \<and> printReport (analysisResult (the (handleImageUpload upload_print_down st1))) = None
   \<and> loaded upload_with_key = Some (5000, 5500)
   \<and> handleImageUpload upload_with_key st1 \<noteq> None
   \<and> map_option resolution (printReport (analysisResult (the (handleImageUpload upload_with_key st1))))
       = Some item_fail
   \<and> status item_fail = Fail"
  by (simp add: handleImageUpload_def upload_print_down_def upload_with_key_def upload_ok_def
        response_ok_def finalReport_def item_fail_def showMessage_def)

text \<open>
  Claim C7, amended. When the file is read, the image loads with width \<open>w\<close> and height
  \<open>h\<close>, both analyses return and the print response has no \<open>resolution\<close> key, the
  handler returns and the report it stores has a resolution item whose status is the
  check mark exactly when \<open>w\<close> is at least 4500 and \<open>h\<close> at least 5400, and the warning
  sign otherwise, and which has a suggestion, the one naming an upscaler, exactly when
  \<open>w\<close> is below 4500 or \<open>h\<close> below 5400. When the file is read, the image loads and one
  of the analyses throws, the handler returns and stores no report.
\<close>

theorem upload_resolution_verdict:
  "(readAsBase64 up = Inr b \<and> loaded up = Some (w, h)
      \<and> analyzeImageForInspiration up b (file_type up) = Inr ins
      \<and> analyzeImageForPrint up b (file_type up) w h = Inr pr
      \<and> r_resolution pr = None \<longrightarrow>
      (\<exists>st' report. handleImageUpload up st = Some st'
          \<and> printReport (analysisResult st') = Some report
          \<and> status (resolution report) = (if 4500 \<le> w \<and> 5400 \<le> h then Pass else Warn)
          \<and> (status (resolution report) = Pass) = (4500 \<le> w \<and> 5400 \<le> h)
          \<and> (suggestion (resolution report) \<noteq> None) = (w < 4500 \<or> h < 5400)
          \<and> (suggestion (resolution report) \<noteq> None) =
              (suggestion (resolution report) = Some ''Use an upscaler for a high-quality print.'')))
   \<and> (readAsBase64 up2 = Inr b2 \<and> loaded up2 = Some (w2, h2)
      \<and> (isl (analyzeImageForInspiration up2 b2 (file_type up2))
          \<or> isl (analyzeImageForPrint up2 b2 (file_type up2) w2 h2)) \<longrightarrow>
      (\<exists>st'. handleImageUpload up2 st = Some st' \<and> printReport (analysisResult st') = None))"
proof -
  have ok: "\<exists>st' report. handleImageUpload up st = Some st'
          \<and> printReport (analysisResult st') = Some report
          \<and> status (resolution report) = (if 4500 \<le> w \<and> 5400 \<le> h then Pass else Warn)
          \<and> (status (resolution report) = Pass) = (4500 \<le> w \<and> 5400 \<le> h)
          \<and> (suggestion (resolution report) \<noteq> None) = (w < 4500 \<or> h < 5400)
          \<and> (suggestion (resolution report) \<noteq> None) =
              (suggestion (resolution report) = Some ''Use an upscaler for a high-quality print.'')"
    if "readAsBase64 up = Inr b" "loaded up = Some (w, h)"
      "analyzeImageForInspiration up b (file_type up) = Inr ins"
      "analyzeImageForPrint up b (file_type up) w h = Inr pr" "r_resolution pr = None"
    using that by (simp add: handleImageUpload_def finalReport_def resolution_check_def)
  have bad: "\<exists>st'. handleImageUpload up2 st = Some st' \<and> printReport (analysisResult st') = None"
    if rd: "readAsBase64 up2 = Inr b2" and ld: "loaded up2 = Some (w2, h2)"
      and rej: "isl (analyzeImageForInspiration up2 b2 (file_type up2))
          \<or> isl (analyzeImageForPrint up2 b2 (file_type up2) w2 h2)"
  proof -
    obtain e where "promise_all (analyzeImageForInspiration up2 b2 (file_type up2))
        (analyzeImageForPrint up2 b2 (file_type up2) w2 h2) (inspiration_rejects_first up2) = Inl e"
      using rej
      by (cases "analyzeImageForInspiration up2 b2 (file_type up2)";
          cases "analyzeImageForPrint up2 b2 (file_type up2) w2 h2") auto
    then show ?thesis
      using rd ld by (simp add: handleImageUpload_def showMessage_def)
  qed
  from ok bad show ?thesis by blast
qed

theorem upload_resolution_verdict_witness:
  "readAsBase64 upload_ok = Inr ''aGk='' \<and> loaded upload_ok = Some (5000, 5500)
   \<and> analyzeImageForInspiration upload_ok ''aGk='' (file_type upload_ok) = Inr analysis_ok
   \<and> analyzeImageForPrint upload_ok ''aGk='' (file_type upload_ok) 5000 5500 = Inr response_ok
   \<and> r_resolution response_ok = None
   \<and> map_option resolution (printReport (analysisResult (the (handleImageUpload upload_ok st1))))
       = Some (resolution_check 5000 5500)
   \<and> status (resolution_check 5000 5500) = Pass
   \<and> suggestion (resolution_check 5000 5500) = None
   \<and> map_option resolution (printReport (analysisResult (the (handleImageUpload upload_small st1))))
       = Some (resolution_check 3000 4000)
   \<and> status (resolution_check 3000 4000) = Warn
   \<and> suggestion (resolution_check 3000 4000) = Some ''Use an upscaler for a high-quality print.''
   \<and> readAsBase64 upload_print_down = Inr ''aGk='' \<and> loaded upload_print_down = Some (5000, 5500)
   \<and> isl (analyzeImageForPrint upload_print_down ''aGk='' (file_type upload_print_down) 5000 5500)
   \<and> printReport (analysisResult (the (handleImageUpload upload_print_down st1))) = None"
proof -
  have h: "readAsBase64 upload_ok = Inr ''aGk=''" "loaded upload_ok = Some (5000, 5500)"
      "analyzeImageForInspiration upload_ok ''aGk='' (file_type upload_ok) = Inr analysis_ok"
      "analyzeImageForPrint upload_ok ''aGk='' (file_type upload_ok) 5000 5500 = Inr response_ok"
      "r_resolution response_ok = None"
    by (simp_all add: upload_ok_def response_ok_def)
  have g: "readAsBase64 upload_print_down = Inr ''aGk=''" "loaded upload_print_down = Some (5000, 5500)"
      "isl (analyzeImageForPrint upload_print_down ''aGk='' (file_type upload_print_down) 5000 5500)"
    by (simp_all add: upload_print_down_def upload_ok_def)
  note t = upload_resolution_verdict [where up = upload_ok and b = "''aGk=''" and w = 5000 and h = 5500
      and ins = analysis_ok and pr = response_ok and st = st1 and ?up2.0 = upload_print_down
      and ?b2.0 = "''aGk=''" and ?w2.0 = 5000 and ?h2.0 = 5500]
  from t g obtain st' where c: "handleImageUpload upload_print_down st1 = Some st'"
      "printReport (analysisResult st') = None"
    by blast
  have big: "map_option resolution (printReport (analysisResult (the (handleImageUpload upload_ok st1))))
       = Some (resolution_check 5000 5500)"
    by (simp add: handleImageUpload_def upload_ok_def response_ok_def finalReport_def)
  have small: "map_option resolution (printReport (analysisResult (the (handleImageUpload upload_small st1))))
       = Some (resolution_check 3000 4000)"
    by (simp add: handleImageUpload_def upload_small_def upload_ok_def response_ok_def finalReport_def)
  have v: "status (resolution_check 5000 5500) = Pass" "suggestion (resolution_check 5000 5500) = None"
      "status (resolution_check 3000 4000) = Warn"
      "suggestion (resolution_check 3000 4000) = Some ''Use an upscaler for a high-quality print.''"
    by (simp_all add: resolution_check_def)
  show ?thesis
    using h g c big small v by simp
qed

text \<open>A \<open>resolution\<close> key in the print response takes the place of the local item.\<close>

lemma response_resolution_wins:
  "r_resolution printResponse = Some r \<Longrightarrow> resolution (finalReport w h printResponse) = r"
  by (simp add: finalReport_def)

end
